theory Spec2Isabelle
  imports Complex_Main "HOL-Library.Char_ord" "HOL-Library.List_Lexorder"
    "HOL-Library.Signed_Division"
begin

section \<open>The device manager of the LAMMPS accelerator library (lib/gpu/device.cpp)\<close>

text \<open>
  A shallow embedding of \<^verbatim>\<open>Device<numtyp,acctyp>\<close>. The C++ \<^verbatim>\<open>int\<close> values (counts,
  ranks, device indices) are modelled as mathematical integers: signed overflow is undefined
  behaviour in C++ and none of the quantities below comes near the 32-bit range. Values of
  type \<^verbatim>\<open>double\<close> are reals, and where the code multiplies, adds or divides such
  values with a result that is rounded (lines 155, 361, 362, 364 and 365) the model applies
  the rounding \<open>round_double\<close> of the build; the quotient of line 110 is exact under
  \<^verbatim>\<open>ceil\<close>, and the architecture number of line 551 is kept as the exact quotient.
  Undefined behaviour of the source (dereferencing
  the end iterator of an empty map, an integer division by zero, using a device object that
  has no device) is the result \<open>None\<close>.
\<close>

subsection \<open>The map from node names to process counts (init_device, lines 82 to 101)\<close>

text \<open>
  \<^verbatim>\<open>std::map<std::string,int>\<close> keeps its entries ordered by key, and \<^verbatim>\<open>std::string\<close>
  compares lexicographically by unsigned byte value: the order of \<^typ>\<open>string\<close> given by
  the lexicographic order on lists over the order of characters by code. The map is the list
  of its entries in iteration order, from \<^verbatim>\<open>begin()\<close> on.
\<close>

type_synonym name_map = "(string \<times> int) list"

text \<open>\<^verbatim>\<open>m[k]=v\<close>: the entry is replaced, or inserted at its place in key order.\<close>

fun map_set :: "string \<Rightarrow> int \<Rightarrow> name_map \<Rightarrow> name_map" where
  "map_set k v [] = [(k, v)]"
| "map_set k v ((k', v') # m) =
     (if k < k' then (k, v) # (k', v') # m
      else if k = k' then (k', v) # m
      else (k', v') # map_set k v m)"

text \<open>
  The body of the loop of lines 85 to 92 for one gathered name: \<^verbatim>\<open>find\<close>, then either
  \<^verbatim>\<open>name_map[i_string]=1\<close> or \<^verbatim>\<open>np->second++\<close>.
\<close>

definition count_name :: "string \<Rightarrow> name_map \<Rightarrow> name_map" where
  "count_name i_string m =
     (case map_of m i_string of
        None \<Rightarrow> map_set i_string 1 m
      | Some c \<Rightarrow> map_set i_string (c + 1) m)"

text \<open>The loop over the gathered names, rank 0 first, starting from the empty map.\<close>

definition count_names :: "string list \<Rightarrow> name_map" where
  "count_names names = fold count_name names []"

text \<open>
  \<^verbatim>\<open>int procs_per_node=name_map.begin()->second\<close>; on an empty map \<^verbatim>\<open>begin()\<close> is
  \<^verbatim>\<open>end()\<close> and may not be dereferenced.
\<close>

definition procs_per_node :: "string list \<Rightarrow> int option" where
  "procs_per_node names =
     (case count_names names of [] \<Rightarrow> None | (k, c) # m \<Rightarrow> Some c)"

text \<open>
  Lines 96 to 101: the loop over the map in key order that numbers the nodes;
  \<open>split_num\<close> and \<open>split_id\<close> are the two loop variables.
\<close>

fun assign_split_id :: "string \<Rightarrow> name_map \<Rightarrow> int \<Rightarrow> int \<Rightarrow> int" where
  "assign_split_id node_string [] split_num split_id = split_id"
| "assign_split_id node_string ((k, c) # m) split_num split_id =
     assign_split_id node_string m (split_num + 1)
       (if k = node_string then split_num else split_id)"

text \<open>
  The reading of the specification's step 2, for comparison with the code: the groups in
  the order in which their host identifier is first seen, each with its size.
\<close>

definition first_seen_groups :: "string list \<Rightarrow> (string \<times> int) list" where
  "first_seen_groups names =
     map (\<lambda>k. (k, int (count_list names k))) (rev (remdups (rev names)))"

subsection \<open>The outside world: MPI, the device driver, the build\<close>

text \<open>
  A communicator is a handle, or the result of \<^verbatim>\<open>MPI_Comm_split(comm, color, key)\<close>: the
  communicator a process gets is determined by the parent and the colour it passes.
\<close>

datatype mpi_comm = Comm nat | Comm_split mpi_comm int int

text \<open>
  The pointer \<^verbatim>\<open>gpu\<close>: no object, a \<^verbatim>\<open>UCL_Device\<close> on which \<^verbatim>\<open>set\<close> was never called,
  or one bound to the device of the given index.
\<close>

datatype gpu_object = No_gpu | Gpu_unset | Gpu_set int

text \<open>
  What is fixed when the library is built: the preprocessor symbols \<^verbatim>\<open>USE_OPENCL\<close> and
  \<^verbatim>\<open>_OPENMP\<close>, whether \<^verbatim>\<open>sizeof(acctyp)==sizeof(double)\<close>, the two enumerators of
  device.h (a header that is not among the sources) used by device.cpp, and the arithmetic
  of \<^verbatim>\<open>double\<close>: \<open>round_double\<close> takes the exact result of an operation to the
  \<^verbatim>\<open>double\<close> that the operation returns.
\<close>

record build =
  use_opencl :: bool
  use_openmp :: bool
  acc_is_double :: bool
  GPU_FORCE :: int
  GPU_NEIGH :: int
  round_double :: "real \<Rightarrow> real"

text \<open>
  What one process observes of its environment during \<^verbatim>\<open>init_device\<close> and
  \<^verbatim>\<open>compile_kernels\<close>. \<open>node_names\<close> is the result of \<^verbatim>\<open>MPI_Allgather\<close> over the world
  communicator, one name per rank, so its length is the size of that communicator.
  \<open>double_precision\<close>, \<open>group_size\<close> and \<open>arch\<close> are the properties of the device of a
  given index; \<open>gpu_lib_data\<close> is the buffer of 14 integers written by \<^verbatim>\<open>kernel_info\<close>.
\<close>

record env =
  comm_rank :: "mpi_comm \<Rightarrow> int"
  comm_size :: "mpi_comm \<Rightarrow> int"
  processor_name :: string
  node_names :: "string list"
  num_devices :: int
  double_precision :: "int \<Rightarrow> bool"
  group_size :: "int \<Rightarrow> nat"
  arch :: "int \<Rightarrow> real"
  load_string_ok :: bool
  gpu_lib_data :: "nat \<Rightarrow> int"

text \<open>The timers of \<^verbatim>\<open>estimate_gpu_overhead\<close>.\<close>

datatype timer = Over_timer | Timer_in nat | Timer_kernel nat | Timer_out nat

text \<open>
  The calls the manager makes on its collaborators (OpenMP, the device driver, the atom,
  answer and neighbour containers, MPI), recorded in the order in which they are made.
\<close>

datatype call =
    Omp_set_num_threads int
  | Gpu_new
  | Gpu_select int
  | Gpu_delete
  | Program_load
  | Run_kernel_info
  | Atom_init int bool bool bool bool
  | Atom_add_fields bool bool bool bool
  | Atom_clear
  | Ans_init int bool bool
  | Nbor_init int int int int bool int bool
  | Nbor_cell_size real
  | Neighbor_shared_clear
  | Kernels_clear
  | Program_delete
  | Alloc_in nat
  | Alloc_out nat
  | Alloc_kernel nat
  | Gpu_sync
  | Gpu_barrier
  | Start timer
  | Stop timer
  | Wtime
  | Copy_in nat
  | Zero_kernel nat
  | Copy_out nat
  | Add_to_total timer
  | Allreduce_max mpi_comm real

subsection \<open>The atom container\<close>

text \<open>
  The class \<^verbatim>\<open>Atom\<close> is not among the sources; the manager uses \<^verbatim>\<open>init\<close>,
  \<^verbatim>\<open>add_fields\<close>, \<^verbatim>\<open>clear\<close>, \<^verbatim>\<open>charge()\<close> and \<^verbatim>\<open>quat()\<close> of it.
\<close>

record atom_data =
  allocated :: bool
  a_charge :: bool
  a_quat :: bool

text \<open>
  Modelled from the spec: \<^verbatim>\<open>Atom::init\<close> is missing. The first attach "allocates shared
  device-resident atom/neighbor storage sized for the requested atom count and capability
  flags (charge, orientation)". \<open>ok\<close> is the value the call returns; the specification says
  nothing about the container after a failed call, which is left as it was.
\<close>

definition atom_init :: "bool \<Rightarrow> bool \<Rightarrow> bool \<Rightarrow> atom_data \<Rightarrow> atom_data" where
  "atom_init ok charge rot a =
     (if ok then \<lparr>allocated = True, a_charge = charge, a_quat = rot\<rparr> else a)"

text \<open>
  Modelled from the spec: \<^verbatim>\<open>Atom::add_fields\<close> is missing. A later attach "extends the
  existing storage to add the missing field (charge or orientation) in place".
\<close>

definition atom_add_fields :: "bool \<Rightarrow> bool \<Rightarrow> bool \<Rightarrow> atom_data \<Rightarrow> atom_data" where
  "atom_add_fields ok charge rot a =
     (if ok then a\<lparr>a_charge := a_charge a \<or> charge, a_quat := a_quat a \<or> rot\<rparr> else a)"

text \<open>
  Modelled from the spec: \<^verbatim>\<open>Atom::clear\<close> is missing. The last detach "releases all
  device-resident buffers".
\<close>

definition atom_clear :: "atom_data \<Rightarrow> atom_data" where
  "atom_clear a = a\<lparr>allocated := False\<rparr>"

subsection \<open>The manager's state\<close>

text \<open>
  The data members of \<^verbatim>\<open>Device\<close> that device.cpp reads or writes, under their names
  without the leading underscore. \<open>neighbor_shared\<close>, \<open>dev_program\<close>, \<open>k_zero\<close> and
  \<open>k_info\<close> say whether the object holds device resources. \<open>calls\<close> is the history of
  calls on the collaborators.
\<close>

record device =
  init_count :: int
  device_init :: bool
  gpu_mode :: int
  first_device :: int
  last_device :: int
  compiled :: bool
  nthreads :: int
  threads_per_atom :: int
  threads_per_charge :: int
  comm_world :: mpi_comm
  comm_replica :: mpi_comm
  comm_gpu :: mpi_comm
  particle_split :: real
  world_me :: int
  world_size :: int
  replica_me :: int
  replica_size :: int
  gpu_rank :: int
  procs_per_gpu :: int
  time_device :: bool
  gpu :: gpu_object
  long_range_precompute :: int
  pppm_single :: nat
  pppm_double :: nat
  data_in_estimate :: int
  data_out_estimate :: int
  atom :: atom_data
  neighbor_shared :: bool
  dev_program :: bool
  k_zero :: bool
  k_info :: bool
  ptx_arch :: real
  num_mem_threads :: int
  warp_size :: int
  pppm_max_spline :: int
  pppm_block :: int
  block_pair :: int
  max_shared_types :: int
  block_cell_2d :: int
  block_cell_id :: int
  block_nbor_build :: int
  block_bio_pair :: int
  max_bio_shared_types :: int
  calls :: "call list"

text \<open>
  The constructor (lines 33 to 37) initialises six members; the others keep whatever the
  memory \<open>u\<close> of the object holds.
\<close>

definition Device :: "build \<Rightarrow> device \<Rightarrow> device" where
  "Device b u = u\<lparr>init_count := 0, device_init := False, gpu_mode := GPU_FORCE b,
     first_device := 0, last_device := 0, compiled := False\<rparr>"

definition log_call :: "call \<Rightarrow> device \<Rightarrow> device" where
  "log_call c s = s\<lparr>calls := calls s @ [c]\<rparr>"

subsection \<open>compile_kernels (lines 529 to 587)\<close>

text \<open>
  \<^verbatim>\<open>static_cast<size_t>\<close> of an \<^verbatim>\<open>int\<close> (64-bit \<^verbatim>\<open>size_t\<close>), and the conversion of a
  \<^verbatim>\<open>size_t\<close> back to \<^verbatim>\<open>int\<close> (two's complement, 32 bits).
\<close>

definition size_t_of_int :: "int \<Rightarrow> nat" where
  "size_t_of_int x = nat (x mod 2 ^ 64)"

definition int_of_size_t :: "nat \<Rightarrow> int" where
  "int_of_size_t n =
     (let m = int n mod 2 ^ 32 in if m < 2 ^ 31 then m else m - 2 ^ 32)"

text \<open>Lines 557 to 571: the constants are read from the fixed offsets of the buffer.\<close>

definition read_capabilities :: "(nat \<Rightarrow> int) \<Rightarrow> device \<Rightarrow> device" where
  "read_capabilities h s =
     (let s1 = s\<lparr>num_mem_threads := h 1, warp_size := h 2\<rparr>;
          s2 = (if threads_per_atom s1 < 1 then s1\<lparr>threads_per_atom := h 3\<rparr> else s1);
          s3 = (if threads_per_charge s2 < 1 then s2\<lparr>threads_per_charge := h 13\<rparr> else s2)
      in s3\<lparr>pppm_max_spline := h 4, pppm_block := h 5, block_pair := h 6,
            max_shared_types := h 7, block_cell_2d := h 8, block_cell_id := h 9,
            block_nbor_build := h 10, block_bio_pair := h 11,
            max_bio_shared_types := h 12\<rparr>)"

text \<open>Lines 573 to 576: the block sizes are clamped to the group size of the device.\<close>

definition clamp_blocks :: "nat \<Rightarrow> device \<Rightarrow> device" where
  "clamp_blocks gs s =
     (let s1 = (if size_t_of_int (block_pair s) > gs
                then s\<lparr>block_pair := int_of_size_t gs\<rparr> else s)
      in if size_t_of_int (block_bio_pair s1) > gs
         then s1\<lparr>block_bio_pair := int_of_size_t gs\<rparr> else s1)"

text \<open>
  Lines 577 to 584: the lanes per particle and per charge are clamped to the warp size and
  reset to 1 when they do not divide it. \<^verbatim>\<open>%\<close> is the remainder of the division that
  truncates towards zero, and is undefined for a zero divisor.
\<close>

definition clamp_lanes :: "device \<Rightarrow> device option" where
  "clamp_lanes s =
     (let s1 = (if threads_per_atom s > warp_size s
                then s\<lparr>threads_per_atom := warp_size s\<rparr> else s)
      in if threads_per_atom s1 = 0 then None
         else
           let s2 = (if warp_size s1 smod threads_per_atom s1 \<noteq> 0
                     then s1\<lparr>threads_per_atom := 1\<rparr> else s1);
               s3 = (if threads_per_charge s2 > warp_size s2
                     then s2\<lparr>threads_per_charge := warp_size s2\<rparr> else s2)
           in if threads_per_charge s3 = 0 then None
              else Some (if warp_size s3 smod threads_per_charge s3 \<noteq> 0
                         then s3\<lparr>threads_per_charge := 1\<rparr> else s3))"

text \<open>
  The function returns 0 at once on a module that is already compiled. Otherwise the
  program is created on \<^verbatim>\<open>*gpu\<close> and loaded (failure: -4), the two kernels are bound,
  \<^verbatim>\<open>kernel_info\<close> is run, and in a build without \<^verbatim>\<open>USE_OPENCL\<close> an architecture newer than
  the device's gives -4.
\<close>

definition compile_kernels :: "build \<Rightarrow> env \<Rightarrow> device \<Rightarrow> (int \<times> device) option" where
  "compile_kernels b e s =
     (if compiled s then Some (0, s)
      else
        case gpu s of
          Gpu_set d \<Rightarrow>
            let s1 = log_call Program_load (s\<lparr>dev_program := True\<rparr>)
            in if \<not> load_string_ok e then Some (- 4, s1)
               else
                 let s2 = log_call Run_kernel_info
                            (s1\<lparr>k_zero := True, k_info := True, compiled := True\<rparr>);
                     h = gpu_lib_data e;
                     s3 = s2\<lparr>ptx_arch := real_of_int (h 0) / 100\<rparr>
                 in if \<not> use_opencl b \<and> ptx_arch s3 > arch e d then Some (- 4, s3)
                    else
                      (case clamp_lanes (clamp_blocks (group_size e d)
                                           (read_capabilities h s3)) of
                         None \<Rightarrow> None
                       | Some s4 \<Rightarrow> Some (0, s4))
        | _ \<Rightarrow> None)"

subsection \<open>init_device (lines 44 to 134)\<close>

record device_args =
  world :: mpi_comm
  replica :: mpi_comm
  first_gpu :: int
  last_gpu :: int
  gpu_mode_arg :: int
  p_split :: real
  nthreads_arg :: int
  t_per_atom :: int

text \<open>
  Lines 58 to 133, what \<^verbatim>\<open>init_device\<close> does on a manager that is not yet bound. The
  local variables keep their names. \<^verbatim>\<open>ceil\<close> of the quotient of two \<^verbatim>\<open>int\<close> values
  converted to \<^verbatim>\<open>double\<close> is the ceiling of the exact quotient; a zero divisor gives an
  infinity whose conversion to \<^verbatim>\<open>int\<close> is undefined. \<^verbatim>\<open>/\<close> on \<^verbatim>\<open>int\<close> truncates towards
  zero and is undefined for a zero divisor.
\<close>

definition bind_device :: "build \<Rightarrow> env \<Rightarrow> device_args \<Rightarrow> device \<Rightarrow> (int \<times> device) option" where
  "bind_device b e a s =
     (let s1 = s\<lparr>device_init := True, comm_world := world a, comm_replica := replica a,
                 first_device := first_gpu a, last_device := last_gpu a,
                 gpu_mode := gpu_mode_arg a, particle_split := p_split a\<rparr>;
          s2 = s1\<lparr>world_me := comm_rank e (comm_world s1),
                  world_size := int (length (node_names e)),
                  replica_me := comm_rank e (comm_replica s1),
                  replica_size := comm_size e (comm_replica s1)\<rparr>;
          name_map = count_names (node_names e)
      in case procs_per_node (node_names e) of
           None \<Rightarrow> None
         | Some ppn \<Rightarrow>
             let split_id = assign_split_id (processor_name e) name_map 0 0;
                 node_comm = Comm_split (comm_world s2) split_id 0;
                 node_rank = comm_rank e node_comm;
                 n_gpus = last_gpu a - first_gpu a + 1
             in if n_gpus = 0 then None
                else
                  let s3 = s2\<lparr>procs_per_gpu := \<lceil>real_of_int ppn / real_of_int n_gpus\<rceil>\<rparr>
                  in if procs_per_gpu s3 = 0 then None
                     else
                       let my_gpu = node_rank sdiv procs_per_gpu s3 + first_gpu a;
                           s4 = s3\<lparr>time_device := \<not> procs_per_gpu s3 > 1\<rparr>;
                           s5 = s4\<lparr>comm_gpu := Comm_split node_comm my_gpu 0\<rparr>;
                           s6 = s5\<lparr>gpu_rank := comm_rank e (comm_gpu s5)\<rparr>;
                           s7 = log_call Gpu_new (s6\<lparr>gpu := Gpu_unset\<rparr>)
                       in if my_gpu \<ge> num_devices e then Some (- 2, s7)
                          else
                            compile_kernels b e
                              ((log_call (Gpu_select my_gpu) (s7\<lparr>gpu := Gpu_set my_gpu\<rparr>))
                                 \<lparr>long_range_precompute := 0\<rparr>))"

text \<open>
  Lines 49 to 54: the thread count and the requested lanes are stored first, whatever the
  state of the manager.
\<close>

definition store_request :: "build \<Rightarrow> device_args \<Rightarrow> device \<Rightarrow> device" where
  "store_request b a s =
     (let s1 = s\<lparr>nthreads := nthreads_arg a\<rparr>;
          s2 = (if use_openmp b then log_call (Omp_set_num_threads (nthreads_arg a)) s1
                else s1)
      in s2\<lparr>threads_per_atom := t_per_atom a, threads_per_charge := t_per_atom a\<rparr>)"

text \<open>Lines 56 and 57: a bound manager returns 0 there; otherwise the device is bound.\<close>

definition init_device :: "build \<Rightarrow> env \<Rightarrow> device_args \<Rightarrow> device \<Rightarrow> (int \<times> device) option" where
  "init_device b e a s =
     (let s3 = store_request b a s
      in if device_init s3 then Some (0, s3) else bind_device b e a s3)"

subsection \<open>init (lines 136 to 214)\<close>

record init_args =
  charge :: bool
  rot :: bool
  nlocal :: int
  host_nlocal :: int
  nall :: int
  maxspecial :: int
  gpu_host :: int
  max_nbors :: int
  cell_size :: real
  pre_cut :: bool

text \<open>
  What the collaborators return to one call of \<^verbatim>\<open>init\<close>: \<^verbatim>\<open>atom.init\<close> or
  \<^verbatim>\<open>atom.add_fields\<close> (whichever is called), \<^verbatim>\<open>ans.init\<close> and \<^verbatim>\<open>nbor->init\<close>.
\<close>

record init_outcome =
  atom_ok :: bool
  ans_ok :: bool
  nbor_ok :: bool

text \<open>\<^verbatim>\<open>static_cast<int>\<close> of a \<^verbatim>\<open>double\<close> truncates towards zero.\<close>

definition int_of_double :: "real \<Rightarrow> int" where
  "int_of_double x = (if 0 \<le> x then \<lfloor>x\<rfloor> else \<lceil>x\<rceil>)"

text \<open>
  Line 145: \<^verbatim>\<open>sizeof(acctyp)==sizeof(double) && gpu->double_precision()==false\<close>. The device
  object is only asked when the accumulation type is double-width.
\<close>

definition precision_unsupported :: "build \<Rightarrow> env \<Rightarrow> device \<Rightarrow> bool option" where
  "precision_unsupported b e s =
     (if acc_is_double b
      then (case gpu s of Gpu_set d \<Rightarrow> Some (\<not> double_precision e d) | _ \<Rightarrow> None)
      else Some False)"

text \<open>
  Lines 161 to 178: the atom storage is allocated by the first attach and extended by the
  later ones. The result says whether the container's call succeeded.
\<close>

definition attach_atom :: "init_args \<Rightarrow> init_outcome \<Rightarrow> bool \<Rightarrow> device \<Rightarrow> bool \<times> device" where
  "attach_atom a out gpu_nbor s =
     (if init_count s = 0 then
        let s1 = log_call (Atom_init (nall a) (charge a) (rot a) gpu_nbor
                             (gpu_nbor \<and> maxspecial a > 0))
                   (s\<lparr>atom := atom_init (atom_ok out) (charge a) (rot a) (atom s)\<rparr>)
        in if \<not> atom_ok out then (False, s1)
           else
             let s2 = s1\<lparr>data_in_estimate := data_in_estimate s1 + 1\<rparr>;
                 s3 = (if charge a then s2\<lparr>data_in_estimate := data_in_estimate s2 + 1\<rparr>
                       else s2)
             in (True, if rot a then s3\<lparr>data_in_estimate := data_in_estimate s3 + 1\<rparr>
                       else s3)
      else
        let s1 = (if \<not> a_charge (atom s) \<and> charge a
                  then s\<lparr>data_in_estimate := data_in_estimate s + 1\<rparr> else s);
            s2 = (if \<not> a_quat (atom s1) \<and> rot a
                  then s1\<lparr>data_in_estimate := data_in_estimate s1 + 1\<rparr> else s1);
            s3 = log_call (Atom_add_fields (charge a) (rot a) gpu_nbor
                             (gpu_nbor \<and> maxspecial a \<noteq> 0))
                   (s2\<lparr>atom := atom_add_fields (atom_ok out) (charge a) (rot a) (atom s2)\<rparr>)
        in (atom_ok out, s3))"

text \<open>
  Lines 148 to 190, after the two checks. \<^verbatim>\<open>nbor->init\<close> is handed \<^verbatim>\<open>_neighbor_shared\<close>,
  which holds resources from then on.
\<close>

definition attach :: "build \<Rightarrow> init_args \<Rightarrow> init_outcome \<Rightarrow> device \<Rightarrow> int \<times> device" where
  "attach b a out s =
     (let s1 = s\<lparr>data_in_estimate := 0, data_out_estimate := 1\<rparr>;
          ef_nlocal = (if particle_split s1 < 1 \<and> particle_split s1 > 0
                       then int_of_double
                              (round_double b (particle_split s1 * real_of_int (nlocal a)))
                       else nlocal a);
          gpu_nbor = (gpu_mode s1 = GPU_NEIGH b);
          r = attach_atom a out gpu_nbor s1
      in if \<not> fst r then (- 3, snd r)
         else
           let s3 = log_call (Ans_init ef_nlocal (charge a) (rot a)) (snd r)
           in if \<not> ans_ok out then (- 3, s3)
              else
                let s4 = log_call (Nbor_init ef_nlocal (host_nlocal a) (max_nbors a)
                                     (maxspecial a) gpu_nbor (gpu_host a) (pre_cut a))
                           (s3\<lparr>neighbor_shared := True\<rparr>)
                in if \<not> nbor_ok out then (- 3, s4)
                   else
                     let s5 = log_call (Nbor_cell_size (cell_size a)) s4
                     in (0, s5\<lparr>init_count := init_count s5 + 1\<rparr>))"

definition init :: "build \<Rightarrow> env \<Rightarrow> init_args \<Rightarrow> init_outcome \<Rightarrow> device \<Rightarrow> (int \<times> device) option" where
  "init b e a out s =
     (if \<not> device_init s then Some (- 1, s)
      else
        case precision_unsupported b e s of
          None \<Rightarrow> None
        | Some unsupported \<Rightarrow>
            if unsupported then Some (- 5, s) else Some (attach b a out s))"

text \<open>
  The overload \<^verbatim>\<open>init(ans, nlocal, nall)\<close> of lines 193 to 214, which attaches a client
  that needs charges only.
\<close>

definition init_ans :: "build \<Rightarrow> env \<Rightarrow> int \<Rightarrow> int \<Rightarrow> init_outcome \<Rightarrow> device \<Rightarrow> (int \<times> device) option" where
  "init_ans b e nlocal' nall' out s =
     (if \<not> device_init s then Some (- 1, s)
      else
        case precision_unsupported b e s of
          None \<Rightarrow> None
        | Some unsupported \<Rightarrow>
            if unsupported then Some (- 5, s)
            else
              let s1 = (if init_count s = 0
                        then log_call (Atom_init nall' True False False False)
                               (s\<lparr>atom := atom_init (atom_ok out) True False (atom s)\<rparr>)
                        else log_call (Atom_add_fields True False False False)
                               (s\<lparr>atom := atom_add_fields (atom_ok out) True False (atom s)\<rparr>))
              in if \<not> atom_ok out then Some (- 3, s1)
                 else
                   let s2 = log_call (Ans_init nlocal' True False) s1
                   in if \<not> ans_ok out then Some (- 3, s2)
                      else Some (0, s2\<lparr>init_count := init_count s2 + 1\<rparr>))"

subsection \<open>The precompute hooks (lines 216 to 228)\<close>

definition set_single_precompute :: "nat \<Rightarrow> device \<Rightarrow> device" where
  "set_single_precompute pppm s = s\<lparr>long_range_precompute := 1, pppm_single := pppm\<rparr>"

definition set_double_precompute :: "nat \<Rightarrow> device \<Rightarrow> device" where
  "set_double_precompute pppm s = s\<lparr>long_range_precompute := 2, pppm_double := pppm\<rparr>"

subsection \<open>clear and clear_device (lines 501 to 527)\<close>

definition clear :: "device \<Rightarrow> device" where
  "clear s =
     (if init_count s > 0 then
        let s1 = s\<lparr>long_range_precompute := 0\<rparr>;
            s2 = s1\<lparr>init_count := init_count s1 - 1\<rparr>
        in if init_count s2 = 0 then
             let s3 = log_call Neighbor_shared_clear
                        ((log_call Atom_clear (s2\<lparr>atom := atom_clear (atom s2)\<rparr>))
                           \<lparr>neighbor_shared := False\<rparr>)
             in if compiled s3
                then (log_call Program_delete
                        (log_call Kernels_clear (s3\<lparr>k_zero := False, k_info := False\<rparr>)))
                       \<lparr>dev_program := False, compiled := False\<rparr>
                else s3
           else s2
      else s)"

text \<open>The loop \<^verbatim>\<open>while (_init_count>0) clear();\<close> of line 521.\<close>

function clear_all :: "device \<Rightarrow> device" where
  "clear_all s = (if init_count s > 0 then clear_all (clear s) else s)"
  by pat_completeness auto
termination
  by (relation "measure (\<lambda>s. nat (init_count s))")
    (auto simp: clear_def Let_def log_call_def)

declare clear_all.simps [simp del]

definition clear_device :: "device \<Rightarrow> device" where
  "clear_device s =
     (let s1 = clear_all s
      in if device_init s1
         then (log_call Gpu_delete (s1\<lparr>gpu := No_gpu\<rparr>))\<lparr>device_init := False\<rparr>
         else s1)"

subsection \<open>estimate_gpu_overhead (lines 273 to 383)\<close>

text \<open>
  What the clocks and the other processes contribute in trial \<open>i\<close>: the value of
  \<^verbatim>\<open>over_timer.seconds()\<close>, the difference of the two readings of \<^verbatim>\<open>MPI_Wtime\<close>, and the
  values that the other processes of the per-device communicator pass to the two calls of
  \<^verbatim>\<open>MPI_Allreduce\<close>.
\<close>

record timing =
  over_seconds :: "nat \<Rightarrow> real"
  wtime_elapsed :: "nat \<Rightarrow> real"
  peer_seconds :: "nat \<Rightarrow> real list"
  peer_wtime :: "nat \<Rightarrow> real list"

text \<open>
  \<^verbatim>\<open>MPI_Allreduce\<close> with \<^verbatim>\<open>MPI_MAX\<close> of one value per process; the maximum of
  \<^verbatim>\<open>double\<close> values is one of them and is not rounded.
\<close>

definition allreduce_max :: "real \<Rightarrow> real list \<Rightarrow> real" where
  "allreduce_max x peers = fold max peers x"

text \<open>
  A loop \<^verbatim>\<open>for (int i=...; i<n; i++)\<close> whose pass \<open>i\<close> makes the calls \<open>body i\<close>, from
  the value \<open>i\<close> of the counter on.
\<close>

function for_calls_from :: "int \<Rightarrow> int \<Rightarrow> (nat \<Rightarrow> call list) \<Rightarrow> call list" where
  "for_calls_from i n body =
     (if i < n then body (nat i) @ for_calls_from (i + 1) n body else [])"
  by pat_completeness auto
termination
  by (relation "measure (\<lambda>(i, n, body). nat (n - i))") auto

declare for_calls_from.simps [simp del]

text \<open>The loop \<^verbatim>\<open>for (int i=0; i<n; i++)\<close>.\<close>

definition for_calls :: "int \<Rightarrow> (nat \<Rightarrow> call list) \<Rightarrow> call list" where
  "for_calls n body = for_calls_from 0 n body"

text \<open>Lines 327 to 343: the transfers in, the kernel launches, the transfers out.\<close>

definition timed_region :: "int \<Rightarrow> device \<Rightarrow> call list" where
  "timed_region kernel_calls s =
     for_calls (data_in_estimate s) (\<lambda>i. [Start (Timer_in i), Copy_in i, Stop (Timer_in i)])
     @ for_calls kernel_calls
         (\<lambda>i. [Start (Timer_kernel i), Zero_kernel i, Stop (Timer_kernel i)])
     @ for_calls (data_out_estimate s)
         (\<lambda>i. [Start (Timer_out i), Copy_out i, Stop (Timer_out i)])"

text \<open>
  Lines 320 to 362, one pass of the loop over the trials; the accumulator holds
  \<^verbatim>\<open>gpu_overhead\<close>, \<^verbatim>\<open>gpu_driver_overhead\<close> and the calls made so far. The two additions
  of lines 361 and 362 are additions of \<^verbatim>\<open>double\<close> values.
\<close>

definition trial :: "build \<Rightarrow> timing \<Rightarrow> int \<Rightarrow> device \<Rightarrow> nat \<Rightarrow> real \<times> real \<times> call list \<Rightarrow> real \<times> real \<times> call list" where
  "trial b t kernel_calls s i acc =
     (case acc of (gpu_overhead, gpu_driver_overhead, cs) \<Rightarrow>
        let time = over_seconds t i;
            driver_time = wtime_elapsed t i;
            totals = (if time_device s
                      then for_calls (data_in_estimate s) (\<lambda>j. [Add_to_total (Timer_in j)])
                           @ for_calls kernel_calls (\<lambda>j. [Add_to_total (Timer_kernel j)])
                           @ for_calls (data_out_estimate s) (\<lambda>j. [Add_to_total (Timer_out j)])
                      else []);
            mpi_time = allreduce_max time (peer_seconds t i);
            mpi_driver_time = allreduce_max driver_time (peer_wtime t i)
        in (round_double b (gpu_overhead + mpi_time),
            round_double b (gpu_driver_overhead + mpi_driver_time),
            cs @ [Gpu_sync, Gpu_barrier, Start Over_timer, Gpu_sync, Gpu_barrier, Wtime]
               @ timed_region kernel_calls s
               @ [Stop Over_timer, Wtime] @ totals
               @ [Allreduce_max (comm_gpu s) time, Allreduce_max (comm_gpu s) driver_time]))"

text \<open>The loop \<^verbatim>\<open>for (int i=0; i<10; i++)\<close> of line 319, from the value \<open>i\<close> on.\<close>

function trials :: "build \<Rightarrow> timing \<Rightarrow> int \<Rightarrow> device \<Rightarrow> int \<Rightarrow> real \<times> real \<times> call list \<Rightarrow> real \<times> real \<times> call list" where
  "trials b t kernel_calls s i acc =
     (if i < 10 then trials b t kernel_calls s (i + 1) (trial b t kernel_calls s (nat i) acc)
      else acc)"
  by pat_completeness auto
termination
  by (relation "measure (\<lambda>(b, t, kernel_calls, s, i, acc). nat (10 - i))") auto

declare trials.simps [simp del]

text \<open>
  The buffers and timers are allocated (lines 282 to 314), the two sums start at 0, the
  loop over the trials runs, and both sums are divided by 10.0 (lines 364 and 365). The
  result is the pair of overheads and the calls made.
\<close>

definition estimate_gpu_overhead :: "build \<Rightarrow> timing \<Rightarrow> int \<Rightarrow> device \<Rightarrow> real \<times> real \<times> call list" where
  "estimate_gpu_overhead b t kernel_calls s =
     (let allocs = for_calls (data_in_estimate s) (\<lambda>i. [Alloc_in i])
                   @ for_calls (data_out_estimate s) (\<lambda>i. [Alloc_out i])
                   @ for_calls kernel_calls (\<lambda>i. [Alloc_kernel i]);
          r = trials b t kernel_calls s 0 (0, 0, allocs)
      in (round_double b (fst r / 10), round_double b (fst (snd r) / 10), snd (snd r)))"

subsection \<open>Sequences of calls\<close>

text \<open>A client attaches with \<^verbatim>\<open>init\<close> and detaches with \<^verbatim>\<open>clear\<close>.\<close>

datatype op = Init init_args init_outcome | Clear

text \<open>The calls of a sequence one after the other; the status codes of the attaches are kept.\<close>

fun run :: "build \<Rightarrow> env \<Rightarrow> op list \<Rightarrow> device \<Rightarrow> (int list \<times> device) option" where
  "run b e [] s = Some ([], s)"
| "run b e (Init a out # ops) s =
     (case init b e a out s of
        None \<Rightarrow> None
      | Some (r, s') \<Rightarrow>
          (case run b e ops s' of None \<Rightarrow> None | Some (rs, s'') \<Rightarrow> Some (r # rs, s'')))"
| "run b e (Clear # ops) s = run b e ops (clear s)"


text \<open>The calls that allocate the atom storage.\<close>

fun is_atom_init :: "call \<Rightarrow> bool" where
  "is_atom_init (Atom_init n c r g bonds) = True"
| "is_atom_init other = False"



text \<open>Repeated calls of \<^verbatim>\<open>init_device\<close>, each in its own environment.\<close>

fun init_device_seq :: "build \<Rightarrow> (env \<times> device_args) list \<Rightarrow> device \<Rightarrow> (int list \<times> device) option" where
  "init_device_seq b [] s = Some ([], s)"
| "init_device_seq b ((e, a) # cs) s =
     (case init_device b e a s of
        None \<Rightarrow> None
      | Some (r, s') \<Rightarrow>
          (case init_device_seq b cs s' of
             None \<Rightarrow> None
           | Some (rs, s'') \<Rightarrow> Some (r # rs, s'')))"

subsection \<open>A concrete installation\<close>

text \<open>
  A CUDA build with OpenMP and single-width accumulation, one process on one node with one
  device of warp size 32, and an object whose memory is all zero. No call below on this
  installation rounds a value (the particle split is 1), and \<open>round_double\<close> is taken as
  the identity.
\<close>

definition build0 :: build where
  "build0 = \<lparr>use_opencl = False, use_openmp = True, acc_is_double = False,
     GPU_FORCE = 0, GPU_NEIGH = 1, round_double = (\<lambda>x. x)\<rparr>"

definition lib_data0 :: "nat \<Rightarrow> int" where
  "lib_data0 k = [130, 16, 32, 4, 8, 64, 64, 8, 8, 128, 64, 64, 128, 8] ! k"

definition env0 :: env where
  "env0 = \<lparr>comm_rank = (\<lambda>c. 0), comm_size = (\<lambda>c. 1), processor_name = ''node0'',
     node_names = [''node0''], num_devices = 1, double_precision = (\<lambda>d. False),
     group_size = (\<lambda>d. 512), arch = (\<lambda>d. 2), load_string_ok = True,
     gpu_lib_data = lib_data0\<rparr>"

definition memory0 :: device where
  "memory0 = \<lparr>init_count = 0, device_init = False, gpu_mode = 0, first_device = 0,
     last_device = 0, compiled = False, nthreads = 0, threads_per_atom = 0,
     threads_per_charge = 0, comm_world = Comm 0, comm_replica = Comm 0, comm_gpu = Comm 0,
     particle_split = 0, world_me = 0, world_size = 0, replica_me = 0, replica_size = 0,
     gpu_rank = 0, procs_per_gpu = 0, time_device = False, gpu = No_gpu,
     long_range_precompute = 0, pppm_single = 0, pppm_double = 0, data_in_estimate = 0,
     data_out_estimate = 0,
     atom = \<lparr>allocated = False, a_charge = False, a_quat = False\<rparr>,
     neighbor_shared = False, dev_program = False, k_zero = False, k_info = False,
     ptx_arch = 0, num_mem_threads = 0, warp_size = 0, pppm_max_spline = 0, pppm_block = 0,
     block_pair = 0, max_shared_types = 0, block_cell_2d = 0, block_cell_id = 0,
     block_nbor_build = 0, block_bio_pair = 0, max_bio_shared_types = 0, calls = []\<rparr>"

definition args0 :: device_args where
  "args0 = \<lparr>world = Comm 0, replica = Comm 1, first_gpu = 0, last_gpu = 0,
     gpu_mode_arg = 0, p_split = 1, nthreads_arg = 1, t_per_atom = 0\<rparr>"

definition client0 :: init_args where
  "client0 = \<lparr>charge = True, rot = False, nlocal = 100, host_nlocal = 0, nall = 150,
     maxspecial = 0, gpu_host = 0, max_nbors = 300, cell_size = 3, pre_cut = False\<rparr>"

definition all_ok :: init_outcome where
  "all_ok = \<lparr>atom_ok = True, ans_ok = True, nbor_ok = True\<rparr>"

text \<open>The manager after \<^verbatim>\<open>init_device\<close> in that installation.\<close>

definition bound0 :: device where
  "bound0 = memory0\<lparr>device_init := True, compiled := True, nthreads := 1,
     threads_per_atom := 4, threads_per_charge := 8, comm_replica := Comm 1,
     comm_gpu := Comm_split (Comm_split (Comm 0) 0 0) 0 0, particle_split := 1,
     world_size := 1, replica_size := 1, procs_per_gpu := 1, time_device := True,
     gpu := Gpu_set 0, dev_program := True, k_zero := True, k_info := True,
     ptx_arch := 13 / 10, num_mem_threads := 16, warp_size := 32, pppm_max_spline := 8,
     pppm_block := 64, block_pair := 64, max_shared_types := 8, block_cell_2d := 8,
     block_cell_id := 128, block_nbor_build := 64, block_bio_pair := 64,
     max_bio_shared_types := 128,
     calls := [Omp_set_num_threads 1, Gpu_new, Gpu_select 0, Program_load, Run_kernel_info]\<rparr>"

section \<open>Properties\<close>

subsection \<open>The name map\<close>

lemma map_of_map_set: "map_of (map_set k v m) = (map_of m)(k \<mapsto> v)"
  by (induction m) (auto simp: fun_eq_iff)

lemma keys_map_set: "fst ` set (map_set k v m) = insert k (fst ` set m)"
proof (induction m)
  case Nil
  then show ?case by simp
next
  case (Cons a m)
  obtain k' v' where a: "a = (k', v')" by (cases a)
  show ?case unfolding a using Cons.IH by (simp add: insert_commute)
qed

lemma sorted_map_set:
  "sorted_wrt (<) (map fst m) \<Longrightarrow> sorted_wrt (<) (map fst (map_set k v m))"
proof (induction m)
  case Nil
  then show ?case by simp
next
  case (Cons a m)
  obtain k' v' where a: "a = (k', v')" by (cases a)
  have "\<And>x. x \<in> fst ` set (map_set k v m) \<Longrightarrow> \<not> k < k' \<Longrightarrow> k \<noteq> k' \<Longrightarrow> k' < x"
    using Cons.prems a by (auto simp: keys_map_set)
  with Cons show ?case unfolding a by (auto intro: less_trans)
qed

lemma sorted_count_name:
  "sorted_wrt (<) (map fst m) \<Longrightarrow> sorted_wrt (<) (map fst (count_name k m))"
  by (simp add: count_name_def sorted_map_set split: option.splits)

lemma keys_count_name: "fst ` set (count_name k m) = insert k (fst ` set m)"
  by (simp add: count_name_def keys_map_set split: option.splits)

lemma map_of_count_name:
  "map_of (count_name k m) =
     (map_of m)(k \<mapsto> (case map_of m k of None \<Rightarrow> 1 | Some c \<Rightarrow> c + 1))"
  by (simp add: count_name_def map_of_map_set split: option.splits)

text \<open>The invariant of the counting loop, for any sorted map it starts from.\<close>

lemma fold_count_name:
  "sorted_wrt (<) (map fst m) \<Longrightarrow>
   sorted_wrt (<) (map fst (fold count_name names m)) \<and>
   fst ` set (fold count_name names m) = set names \<union> fst ` set m \<and>
   (\<forall>k. (case map_of (fold count_name names m) k of None \<Rightarrow> 0 | Some c \<Rightarrow> c) =
        (case map_of m k of None \<Rightarrow> 0 | Some c \<Rightarrow> c) + int (count_list names k))"
proof (induction names arbitrary: m)
  case Nil
  then show ?case by simp
next
  case (Cons x xs)
  from Cons.IH [OF sorted_count_name [OF Cons.prems, of x]]
  show ?case by (auto simp: keys_count_name map_of_count_name split: option.splits)
qed

lemma entries_of_keys:
  "distinct (map fst m) \<Longrightarrow> m = map (\<lambda>k. (k, the (map_of m k))) (map fst m)"
proof (induction m)
  case Nil
  then show ?case by simp
next
  case (Cons a m)
  obtain k v where a: "a = (k, v)" by (cases a)
  from Cons.prems have nk: "k \<notin> fst ` set m" and d: "distinct (map fst m)"
    by (auto simp: a)
  have "map (\<lambda>x. (x, the (map_of (a # m) x))) (map fst m) =
        map (\<lambda>x. (x, the (map_of m x))) (map fst m)"
    using nk by (intro map_cong) (auto simp: a)
  also have "\<dots> = m" using Cons.IH [OF d] by simp
  finally show ?case by (simp add: a)
qed

lemma count_names_sorted:
  "count_names names =
     map (\<lambda>k. (k, int (count_list names k))) (sorted_list_of_set (set names))"
proof -
  let ?m = "count_names names"
  have inv: "sorted_wrt (<) (map fst ?m)" "fst ` set ?m = set names"
    "\<And>k. (case map_of ?m k of None \<Rightarrow> 0 | Some c \<Rightarrow> c) = int (count_list names k)"
    using fold_count_name [of "[]" names] by (simp_all add: count_names_def)
  have d: "distinct (map fst ?m)"
    using inv(1) strict_sorted_iff by blast
  have keys: "map fst ?m = sorted_list_of_set (set names)"
    using inv(1,2) 
    by (metis list.set_map sorted_list_of_set.idem_if_sorted_distinct strict_sorted_iff)
  have "?m = map (\<lambda>k. (k, the (map_of ?m k))) (map fst ?m)"
    by (rule entries_of_keys [OF d])
  also have "\<dots> = map (\<lambda>k. (k, int (count_list names k))) (map fst ?m)"
  proof (rule map_cong [OF refl])
    fix k
    assume "k \<in> set (map fst ?m)"
    then obtain c where "map_of ?m k = Some c"
      by (metis (no_types, lifting) domD dom_map_of_conv_image_fst list.set_map)
    with inv(3) [of k] show "(k, the (map_of ?m k)) = (k, int (count_list names k))"
      by simp
  qed
  finally show ?thesis by (simp only: keys)
qed

lemma hd_sorted_list_Min:
  assumes "names \<noteq> []"
  shows "\<exists>ks. sorted_list_of_set (set names) = Min (set names) # ks"
proof -
  let ?l = "sorted_list_of_set (set names)"
  have s: "set ?l = set names" "sorted ?l" by simp_all
  with assms obtain k ks where l: "?l = k # ks" by (cases ?l) auto
  have "Min (set names) = k"
  proof (rule Min_eqI)
    show "finite (set names)" by simp
    show "k \<in> set names" using s(1) l by auto
    fix y
    assume "y \<in> set names"
    then have "y \<in> set (k # ks)" using s(1) l by simp
    then show "k \<le> y" using s(2) l by auto
  qed
  with l show ?thesis by simp
qed

lemma procs_per_node_Min:
  assumes "names \<noteq> []"
  shows "procs_per_node names = Some (int (count_list names (Min (set names))))"
proof -
  from hd_sorted_list_Min [OF assms] obtain ks
    where "sorted_list_of_set (set names) = Min (set names) # ks" ..
  then show ?thesis by (simp add: procs_per_node_def count_names_sorted)
qed

lemma procs_per_node_positive:
  assumes "names \<noteq> []"
  shows "\<exists>ppn. procs_per_node names = Some ppn \<and> 1 \<le> ppn"
proof -
  have "Min (set names) \<in> set names" using assms by (intro Min_in) auto
  then have "count_list names (Min (set names)) \<noteq> 0"
    by (simp add: count_list_0_iff)
  then show ?thesis by (simp add: procs_per_node_Min [OF assms])
qed

text \<open>
  C1 (amended). In the topology resolution of \<^verbatim>\<open>init_device\<close> the processes are grouped by
  distinct host identifier in increasing order of the identifiers (the order of
  \<^verbatim>\<open>std::map\<close>), not in first-seen order: for every gathered list of host identifiers the
  map holds, for each distinct identifier in sorted order, the number of processes with
  it, and \<open>procs_per_node\<close> is the size of the group of the least identifier.
\<close>

theorem name_map_groups_in_key_order:
  "count_names names =
     map (\<lambda>k. (k, int (count_list names k))) (sorted_list_of_set (set names)) \<and>
   (names \<noteq> [] \<longrightarrow>
      procs_per_node names = Some (int (count_list names (Min (set names)))))"
  using count_names_sorted procs_per_node_Min by simp

text \<open>Three processes, the first on node \<open>b\<close> and two on node \<open>a\<close>.\<close>

theorem name_map_groups_in_key_order_witness:
  "[''b'', ''a'', ''a''] \<noteq> [] \<and>
   count_names [''b'', ''a'', ''a''] = [(''a'', 2), (''b'', 1)] \<and>
   Min (set [''b'', ''a'', ''a'']) = ''a'' \<and>
   procs_per_node [''b'', ''a'', ''a''] = Some 2"
  using name_map_groups_in_key_order [of "[''b'', ''a'', ''a'']"]
  by (simp add: insert_commute)

text \<open>
  C1 as stated fails there: the first group in first-seen order is that of \<open>b\<close>, of size
  1, and the code takes the size 2 of the group of \<open>a\<close>.
\<close>

theorem first_seen_order_counterexample:
  "first_seen_groups [''b'', ''a'', ''a''] = [(''b'', 1), (''a'', 2)] \<and>
   count_names [''b'', ''a'', ''a''] \<noteq> first_seen_groups [''b'', ''a'', ''a''] \<and>
   procs_per_node [''b'', ''a'', ''a''] = Some 2 \<and>
   procs_per_node [''b'', ''a'', ''a''] \<noteq>
     Some (snd (hd (first_seen_groups [''b'', ''a'', ''a''])))"
  by (simp add: first_seen_groups_def procs_per_node_def count_names_def count_name_def)

subsection \<open>Attach and detach\<close>

lemma clear_effect:
  assumes "0 < init_count s"
  shows "init_count (clear s) = init_count s - 1"
    and "long_range_precompute (clear s) = 0"
    and "device_init (clear s) = device_init s"
    and "gpu (clear s) = gpu s"
  using assms by (simp_all add: clear_def Let_def log_call_def)


text \<open>
  C10. Every call of \<^verbatim>\<open>clear\<close> that finds a positive attach count resets the registered
  long-range precompute hook to none (0) and takes one from the count, whether or not the
  count stays positive: detaching one client unregisters the precompute client for all.
\<close>

theorem clear_resets_precompute:
  "0 < init_count s \<Longrightarrow>
     long_range_precompute (clear s) = 0 \<and> init_count (clear s) = init_count s - 1"
  by (simp add: clear_effect)

text \<open>
  Two clients are attached and a single-precision precompute client is registered; after
  one \<^verbatim>\<open>clear\<close> one client is still attached and the hook is gone.
\<close>

theorem clear_resets_precompute_witness:
  "0 < init_count (set_single_precompute 7 (memory0\<lparr>device_init := True, init_count := 2\<rparr>)) \<and>
   long_range_precompute (set_single_precompute 7 (memory0\<lparr>device_init := True, init_count := 2\<rparr>)) = 1 \<and>
   long_range_precompute
     (clear (set_single_precompute 7 (memory0\<lparr>device_init := True, init_count := 2\<rparr>))) = 0 \<and>
   init_count (clear (set_single_precompute 7 (memory0\<lparr>device_init := True, init_count := 2\<rparr>))) = 1"
  using clear_resets_precompute
    [of "set_single_precompute 7 (memory0\<lparr>device_init := True, init_count := 2\<rparr>)"]
  by (simp add: set_single_precompute_def memory0_def)

lemma init_unbound: "\<not> device_init s \<Longrightarrow> init b e a out s = Some (- 1, s)"
  by (simp add: init_def)

lemma attach_code:
  "fst (attach b a out s) = (if atom_ok out \<and> ans_ok out \<and> nbor_ok out then 0 else - 3)"
  by (simp add: attach_def attach_atom_def Let_def log_call_def)

text \<open>
  C5. \<^verbatim>\<open>init\<close> returns -1 exactly when the manager is not bound, -5 exactly when the
  manager is bound, the accumulation type is double-width and the bound device lacks double
  precision, and -3 exactly when one of the three allocating calls fails after these
  checks; with -1 and -5 the state of the manager, the attach count in particular, is
  unchanged. The device object has a device whenever the precision is asked of it.
\<close>

theorem init_status_codes:
  assumes "device_init s \<and> acc_is_double b \<longrightarrow> (\<exists>d. gpu s = Gpu_set d)"
  shows "\<exists>r s'. init b e a out s = Some (r, s') \<and>
    (r = - 1 \<longleftrightarrow> \<not> device_init s) \<and>
    (r = - 5 \<longleftrightarrow> device_init s \<and> acc_is_double b \<and>
        (\<exists>d. gpu s = Gpu_set d \<and> \<not> double_precision e d)) \<and>
    (r = - 3 \<longleftrightarrow> device_init s \<and>
        \<not> (acc_is_double b \<and> (\<exists>d. gpu s = Gpu_set d \<and> \<not> double_precision e d)) \<and>
        (\<not> atom_ok out \<or> \<not> ans_ok out \<or> \<not> nbor_ok out)) \<and>
    (r = - 1 \<or> r = - 5 \<longrightarrow> s' = s \<and> init_count s' = init_count s)"
proof (cases "device_init s")
  case False
  then show ?thesis by (simp add: init_def)
next
  case bound: True
  show ?thesis
  proof (cases "acc_is_double b")
    case False
    with bound have "init b e a out s = Some (attach b a out s)"
      by (simp add: init_def precision_unsupported_def)
    then have "init b e a out s = Some (fst (attach b a out s), snd (attach b a out s))"
      by simp
    with bound False show ?thesis by (simp add: attach_code del: prod.collapse)
  next
    case True
    with bound assms obtain d where d: "gpu s = Gpu_set d" by auto
    show ?thesis
    proof (cases "double_precision e d")
      case False
      with bound True d show ?thesis by (simp add: init_def precision_unsupported_def)
    next
      case dp: True
      with bound True d have "init b e a out s = Some (attach b a out s)"
        by (simp add: init_def precision_unsupported_def)
      then have "init b e a out s = Some (fst (attach b a out s), snd (attach b a out s))"
        by simp
      with bound True d dp show ?thesis by (simp add: attach_code del: prod.collapse)
    qed
  qed
qed

text \<open>A build with double-width accumulation on a device without double precision.\<close>

theorem init_status_codes_witness:
  "device_init bound0 \<and> acc_is_double (build0\<lparr>acc_is_double := True\<rparr>) \<and>
   gpu bound0 = Gpu_set 0 \<and> \<not> double_precision env0 0 \<and>
   init (build0\<lparr>acc_is_double := True\<rparr>) env0 client0 all_ok bound0 = Some (- 5, bound0)"
  using init_status_codes [of bound0 "build0\<lparr>acc_is_double := True\<rparr>" env0 client0 all_ok]
  by (simp add: init_def precision_unsupported_def bound0_def memory0_def build0_def env0_def)

text \<open>The overload for clients that need charges only returns the same codes.\<close>

lemma init_ans_status_codes:
  assumes "device_init s \<and> acc_is_double b \<longrightarrow> (\<exists>d. gpu s = Gpu_set d)"
  shows "\<exists>r s'. init_ans b e n m out s = Some (r, s') \<and>
    (r = - 1 \<longleftrightarrow> \<not> device_init s) \<and>
    (r = - 5 \<longleftrightarrow> device_init s \<and> acc_is_double b \<and>
        (\<exists>d. gpu s = Gpu_set d \<and> \<not> double_precision e d)) \<and>
    (r = - 3 \<longleftrightarrow> device_init s \<and>
        \<not> (acc_is_double b \<and> (\<exists>d. gpu s = Gpu_set d \<and> \<not> double_precision e d)) \<and>
        (\<not> atom_ok out \<or> \<not> ans_ok out)) \<and>
    (r = - 1 \<or> r = - 5 \<longrightarrow> s' = s)"
proof (cases "device_init s \<and> acc_is_double b")
  case True
  with assms obtain d where "gpu s = Gpu_set d" by auto
  with True show ?thesis
    by (simp add: init_ans_def precision_unsupported_def Let_def)
next
  case False
  then show ?thesis
    by (auto simp: init_ans_def precision_unsupported_def Let_def)
qed

text \<open>Of two registrations of a precompute client the later one decides the hook.\<close>

lemma precompute_last_registration:
  "long_range_precompute (set_double_precompute q (set_single_precompute p s)) = 2"
  "long_range_precompute (set_single_precompute p (set_double_precompute q s)) = 1"
  by (simp_all add: set_single_precompute_def set_double_precompute_def)

subsection \<open>The concrete installation\<close>

lemma count_names0: "count_names [''node0''] = [(''node0'', 1)]"
  by (simp add: count_names_def count_name_def)

lemma lib_data0_simps:
  "lib_data0 0 = 130" "lib_data0 (Suc 0) = 16" "lib_data0 2 = 32" "lib_data0 3 = 4"
  "lib_data0 4 = 8" "lib_data0 5 = 64" "lib_data0 6 = 64" "lib_data0 7 = 8"
  "lib_data0 8 = 8" "lib_data0 9 = 128" "lib_data0 10 = 64" "lib_data0 11 = 64"
  "lib_data0 12 = 128" "lib_data0 13 = 8"
  by (simp_all add: lib_data0_def)

lemma init_device_fresh:
  "init_device build0 env0 args0 (Device build0 memory0) = Some (0, bound0)"
  by (simp add: init_device_def store_request_def bind_device_def compile_kernels_def read_capabilities_def
      clamp_blocks_def clamp_lanes_def procs_per_node_def count_names0 Device_def
      build0_def env0_def args0_def memory0_def bound0_def log_call_def Let_def
      lib_data0_simps size_t_of_int_def int_of_size_t_def signed_divide_int_def
      signed_modulo_int_def)

subsection \<open>The lanes resolved by compile_kernels\<close>

lemma smod_pos: "1 \<le> (k::int) \<Longrightarrow> 1 \<le> l \<Longrightarrow> k smod l = k mod l"
  by (simp add: signed_modulo_int_def)

lemma smod_self: "(k::int) smod k = 0"
  by (simp add: signed_modulo_int_def)

lemma read_capabilities_lanes:
  "warp_size (read_capabilities h s) = h 2"
  "threads_per_atom (read_capabilities h s) =
     (if threads_per_atom s < 1 then h 3 else threads_per_atom s)"
  "threads_per_charge (read_capabilities h s) =
     (if threads_per_charge s < 1 then h 13 else threads_per_charge s)"
  by (simp_all add: read_capabilities_def Let_def)

lemma clamp_blocks_lanes:
  "warp_size (clamp_blocks gs s) = warp_size s"
  "threads_per_atom (clamp_blocks gs s) = threads_per_atom s"
  "threads_per_charge (clamp_blocks gs s) = threads_per_charge s"
  by (simp_all add: clamp_blocks_def Let_def)

lemma resolve_lane:
  fixes W L :: int
  assumes "1 \<le> W" "1 \<le> L"
  defines "R \<equiv> (if W < L then W else if W smod L \<noteq> 0 then 1 else L)"
  shows "W smod R = 0" "1 \<le> R" "R \<le> W"
  using assms by (auto simp: signed_modulo_int_def)

lemma clamp_lanes_result:
  assumes "1 \<le> warp_size s" "1 \<le> threads_per_atom s" "1 \<le> threads_per_charge s"
  shows "\<exists>s'. clamp_lanes s = Some s' \<and> warp_size s' = warp_size s \<and>
     threads_per_atom s' =
       (if warp_size s < threads_per_atom s then warp_size s
        else if warp_size s smod threads_per_atom s \<noteq> 0 then 1 else threads_per_atom s) \<and>
     threads_per_charge s' =
       (if warp_size s < threads_per_charge s then warp_size s
        else if warp_size s smod threads_per_charge s \<noteq> 0 then 1 else threads_per_charge s)"
  using assms by (auto simp: clamp_lanes_def Let_def smod_self)

lemma compile_kernels_compiles:
  assumes "\<not> compiled s" and "gpu s = Gpu_set d" and "load_string_ok e"
    and "use_opencl b \<or> real_of_int (gpu_lib_data e 0) / 100 \<le> arch e d"
  shows "compile_kernels b e s =
     map_option (Pair 0)
       (clamp_lanes (clamp_blocks (group_size e d) (read_capabilities (gpu_lib_data e)
          ((log_call Run_kernel_info
             ((log_call Program_load (s\<lparr>dev_program := True\<rparr>))
                \<lparr>k_zero := True, k_info := True, compiled := True\<rparr>))
           \<lparr>ptx_arch := real_of_int (gpu_lib_data e 0) / 100\<rparr>))))"
  using assms by (auto simp: compile_kernels_def Let_def split: option.splits)

lemma compile_kernels_lanes:
  assumes "\<not> compiled s" and "gpu s = Gpu_set d" and "load_string_ok e"
    and "use_opencl b \<or> real_of_int (gpu_lib_data e 0) / 100 \<le> arch e d"
    and "1 \<le> gpu_lib_data e 2" and "1 \<le> gpu_lib_data e 3" and "1 \<le> gpu_lib_data e 13"
  shows "\<exists>s'. compile_kernels b e s = Some (0, s') \<and>
     (let W = gpu_lib_data e 2;
          L = (if threads_per_atom s < 1 then gpu_lib_data e 3 else threads_per_atom s);
          C = (if threads_per_charge s < 1 then gpu_lib_data e 13 else threads_per_charge s)
      in warp_size s' = W \<and>
         W smod threads_per_atom s' = 0 \<and> 1 \<le> threads_per_atom s' \<and>
         threads_per_atom s' \<le> W \<and>
         W smod threads_per_charge s' = 0 \<and> 1 \<le> threads_per_charge s' \<and>
         threads_per_charge s' \<le> W \<and>
         threads_per_atom s' = (if W < L then W else if W smod L \<noteq> 0 then 1 else L) \<and>
         threads_per_charge s' = (if W < C then W else if W smod C \<noteq> 0 then 1 else C))"
proof -
  define W where "W = gpu_lib_data e 2"
  define L where "L = (if threads_per_atom s < 1 then gpu_lib_data e 3 else threads_per_atom s)"
  define C where
    "C = (if threads_per_charge s < 1 then gpu_lib_data e 13 else threads_per_charge s)"
  define Ra where "Ra = (if W < L then W else if W smod L \<noteq> 0 then 1 else L)"
  define Rc where "Rc = (if W < C then W else if W smod C \<noteq> 0 then 1 else C)"
  let ?s3 = "(log_call Run_kernel_info
             ((log_call Program_load (s\<lparr>dev_program := True\<rparr>))
                \<lparr>k_zero := True, k_info := True, compiled := True\<rparr>))
           \<lparr>ptx_arch := real_of_int (gpu_lib_data e 0) / 100\<rparr>"
  let ?s4 = "clamp_blocks (group_size e d) (read_capabilities (gpu_lib_data e) ?s3)"
  have f: "warp_size ?s4 = W" "threads_per_atom ?s4 = L" "threads_per_charge ?s4 = C"
    by (simp_all add: clamp_blocks_lanes read_capabilities_lanes log_call_def W_def L_def C_def)
  have pos: "1 \<le> W" "1 \<le> L" "1 \<le> C"
    using assms(5-7) by (auto simp: W_def L_def C_def)
  from clamp_lanes_result [of ?s4] pos obtain s' where s': "clamp_lanes ?s4 = Some s'"
    "warp_size s' = W" "threads_per_atom s' = Ra" "threads_per_charge s' = Rc"
    unfolding f Ra_def Rc_def by blast
  have ret: "compile_kernels b e s = Some (0, s')"
    unfolding compile_kernels_compiles [OF assms(1-4)] s'(1) by simp
  have a: "W smod Ra = 0" "1 \<le> Ra" "Ra \<le> W"
    unfolding Ra_def by (rule resolve_lane [OF pos(1,2)])+
  have c: "W smod Rc = 0" "1 \<le> Rc" "Rc \<le> W"
    unfolding Rc_def by (rule resolve_lane [OF pos(1,3)])+
  have "warp_size s' = W \<and> W smod threads_per_atom s' = 0 \<and> 1 \<le> threads_per_atom s' \<and>
      threads_per_atom s' \<le> W \<and> W smod threads_per_charge s' = 0 \<and>
      1 \<le> threads_per_charge s' \<and> threads_per_charge s' \<le> W \<and>
      threads_per_atom s' = Ra \<and> threads_per_charge s' = Rc"
    using s'(2-4) a c by simp
  then show ?thesis
    using ret unfolding Let_def W_def [symmetric] L_def [symmetric] C_def [symmetric]
      Ra_def [symmetric] Rc_def [symmetric] by blast
qed

text \<open>
  C4 (amended). When \<^verbatim>\<open>compile_kernels\<close> compiles the module (it was not compiled yet, a
  device is bound, the program loads and the architecture is supported) on hardware whose
  warp size \<open>W\<close> and default lane counts are at least 1, it returns 0 and, for each of lanes
  per particle and lanes per charge, the resolved count \<open>R\<close> satisfies \<open>W % R = 0\<close> and
  \<open>1 \<le> R \<le> W\<close>. With \<open>L\<close> the requested count, or the device's default when the request
  is below 1: a value above \<open>W\<close> is clamped to \<open>W\<close>, a value of at most \<open>W\<close> that does not
  divide \<open>W\<close> is reset to 1, and any other value is kept.
\<close>

theorem compile_kernels_resolves_lanes:
  assumes "\<not> compiled s" and "gpu s = Gpu_set d" and "load_string_ok e"
    and "use_opencl b \<or> real_of_int (gpu_lib_data e 0) / 100 \<le> arch e d"
    and "1 \<le> gpu_lib_data e 2" and "1 \<le> gpu_lib_data e 3" and "1 \<le> gpu_lib_data e 13"
  shows "\<exists>s'. compile_kernels b e s = Some (0, s') \<and>
     (let W = gpu_lib_data e 2;
          L = (if threads_per_atom s < 1 then gpu_lib_data e 3 else threads_per_atom s);
          C = (if threads_per_charge s < 1 then gpu_lib_data e 13 else threads_per_charge s)
      in warp_size s' = W \<and>
         W smod threads_per_atom s' = 0 \<and> 1 \<le> threads_per_atom s' \<and>
         threads_per_atom s' \<le> W \<and>
         W smod threads_per_charge s' = 0 \<and> 1 \<le> threads_per_charge s' \<and>
         threads_per_charge s' \<le> W \<and>
         threads_per_atom s' = (if W < L then W else if W smod L \<noteq> 0 then 1 else L) \<and>
         threads_per_charge s' = (if W < C then W else if W smod C \<noteq> 0 then 1 else C))"
  using assms by (rule compile_kernels_lanes)

text \<open>Warp size 32, 3 lanes per particle and 64 per charge requested: 1 and 32 result.\<close>

theorem compile_kernels_resolves_lanes_witness:
  "\<not> compiled (memory0\<lparr>gpu := Gpu_set 0, threads_per_atom := 3, threads_per_charge := 64\<rparr>) \<and>
   gpu (memory0\<lparr>gpu := Gpu_set 0, threads_per_atom := 3, threads_per_charge := 64\<rparr>) =
     Gpu_set 0 \<and>
   load_string_ok env0 \<and>
   (use_opencl build0 \<or> real_of_int (gpu_lib_data env0 0) / 100 \<le> arch env0 0) \<and>
   1 \<le> gpu_lib_data env0 2 \<and> 1 \<le> gpu_lib_data env0 3 \<and> 1 \<le> gpu_lib_data env0 13 \<and>
   (\<exists>s'. compile_kernels build0 env0
       (memory0\<lparr>gpu := Gpu_set 0, threads_per_atom := 3, threads_per_charge := 64\<rparr>) =
       Some (0, s') \<and>
     warp_size s' = 32 \<and> threads_per_atom s' = 1 \<and> threads_per_charge s' = 32)"
  using compile_kernels_resolves_lanes
    [of "memory0\<lparr>gpu := Gpu_set 0, threads_per_atom := 3, threads_per_charge := 64\<rparr>"
      0 env0 build0]
  by (auto simp: memory0_def env0_def build0_def lib_data0_simps signed_modulo_int_def)

text \<open>
  C4 as stated fails for a request above the warp size: 64 does not divide 32 evenly, and
  it is not reset to 1 but clamped to 32.
\<close>

theorem lanes_above_warp_counterexample:
  "(32::int) smod 64 \<noteq> 0 \<and>
   map_option (\<lambda>(r, s'). (r, warp_size s', threads_per_atom s', threads_per_charge s'))
     (init_device build0 env0 (args0\<lparr>t_per_atom := 64\<rparr>) (Device build0 memory0)) =
   Some (0, 32, 32, 32)"
  by (simp add: init_device_def store_request_def bind_device_def compile_kernels_def
      read_capabilities_def clamp_blocks_def clamp_lanes_def procs_per_node_def count_names0
      Device_def build0_def env0_def args0_def memory0_def log_call_def Let_def
      lib_data0_simps size_t_of_int_def int_of_size_t_def signed_divide_int_def
      signed_modulo_int_def)

subsection \<open>What init_device and compile_kernels leave alone\<close>

lemma store_request_fields:
  "device_init (store_request b a s) = device_init s"
  "init_count (store_request b a s) = init_count s"
  "compiled (store_request b a s) = compiled s"
  "dev_program (store_request b a s) = dev_program s"
  "gpu (store_request b a s) = gpu s"
  "nthreads (store_request b a s) = nthreads_arg a"
  "threads_per_atom (store_request b a s) = t_per_atom a"
  "threads_per_charge (store_request b a s) = t_per_atom a"
  by (simp_all add: store_request_def Let_def log_call_def)

lemma init_device_bound:
  "device_init s \<Longrightarrow> init_device b e a s = Some (0, store_request b a s)"
  by (simp add: init_device_def Let_def store_request_fields)

lemma init_device_unbound:
  "\<not> device_init s \<Longrightarrow> init_device b e a s = bind_device b e a (store_request b a s)"
  by (simp add: init_device_def Let_def store_request_fields)

lemma clamp_lanes_frame:
  assumes "clamp_lanes s = Some s'"
  shows "init_count s' = init_count s \<and> device_init s' = device_init s \<and> gpu s' = gpu s \<and>
    procs_per_gpu s' = procs_per_gpu s \<and> comm_gpu s' = comm_gpu s \<and>
    time_device s' = time_device s \<and> compiled s' = compiled s \<and>
    dev_program s' = dev_program s \<and> calls s' = calls s"
  using assms by (auto simp: clamp_lanes_def Let_def split: if_splits)

lemma clamp_blocks_frame:
  "init_count (clamp_blocks gs s) = init_count s \<and>
   device_init (clamp_blocks gs s) = device_init s \<and> gpu (clamp_blocks gs s) = gpu s \<and>
   procs_per_gpu (clamp_blocks gs s) = procs_per_gpu s \<and>
   comm_gpu (clamp_blocks gs s) = comm_gpu s \<and>
   time_device (clamp_blocks gs s) = time_device s \<and>
   compiled (clamp_blocks gs s) = compiled s \<and>
   dev_program (clamp_blocks gs s) = dev_program s \<and> calls (clamp_blocks gs s) = calls s"
  by (simp add: clamp_blocks_def Let_def)

lemma read_capabilities_frame:
  "init_count (read_capabilities h s) = init_count s \<and>
   device_init (read_capabilities h s) = device_init s \<and>
   gpu (read_capabilities h s) = gpu s \<and>
   procs_per_gpu (read_capabilities h s) = procs_per_gpu s \<and>
   comm_gpu (read_capabilities h s) = comm_gpu s \<and>
   time_device (read_capabilities h s) = time_device s \<and>
   compiled (read_capabilities h s) = compiled s \<and>
   dev_program (read_capabilities h s) = dev_program s \<and>
   calls (read_capabilities h s) = calls s"
  by (simp add: read_capabilities_def Let_def)

lemma compile_kernels_frame:
  assumes "compile_kernels b e s = Some (r, s')"
  shows "(r = 0 \<or> r = - 4) \<and> init_count s' = init_count s \<and>
    device_init s' = device_init s \<and> gpu s' = gpu s \<and>
    procs_per_gpu s' = procs_per_gpu s \<and> comm_gpu s' = comm_gpu s \<and>
    time_device s' = time_device s"
proof (cases "compiled s")
  case True
  with assms show ?thesis by (simp add: compile_kernels_def)
next
  case False
  with assms obtain d where d: "gpu s = Gpu_set d"
    by (cases "gpu s") (simp_all add: compile_kernels_def)
  show ?thesis
  proof (cases "load_string_ok e \<and> (use_opencl b \<or> real_of_int (gpu_lib_data e 0) / 100 \<le> arch e d)")
    case True
    then have ok: "load_string_ok e"
      "use_opencl b \<or> real_of_int (gpu_lib_data e 0) / 100 \<le> arch e d" by simp_all
    from assms obtain s4 where "r = 0" and
      "clamp_lanes (clamp_blocks (group_size e d) (read_capabilities (gpu_lib_data e)
          ((log_call Run_kernel_info
             ((log_call Program_load (s\<lparr>dev_program := True\<rparr>))
                \<lparr>k_zero := True, k_info := True, compiled := True\<rparr>))
           \<lparr>ptx_arch := real_of_int (gpu_lib_data e 0) / 100\<rparr>))) = Some s'"
      unfolding compile_kernels_compiles [OF False d ok] by auto
    from clamp_lanes_frame [OF this(2)] \<open>r = 0\<close> show ?thesis
      by (simp add: clamp_blocks_frame read_capabilities_frame log_call_def)
  next
    case False
    with assms \<open>\<not> compiled s\<close> d show ?thesis
      by (auto simp: compile_kernels_def Let_def log_call_def split: if_splits)
  qed
qed

subsection \<open>The device assignment\<close>

lemma ceiling_quotient:
  fixes a n :: int
  assumes "1 \<le> n"
  shows "\<lceil>real_of_int a / real_of_int n\<rceil> = (a + n - 1) div n"
proof -
  define q where "q = a div n"
  define r where "r = a mod n"
  have c: "\<lceil>real_of_int a / real_of_int n\<rceil> = - ((- a) div n)"
    by (simp add: ceiling_divide_eq_div)
  have n0: "n \<noteq> 0" using assms by simp
  have m: "0 \<le> r" "r < n" using assms by (simp_all add: r_def)
  have a: "a = r + q * n" by (simp add: q_def r_def)
  have l: "- ((- a) div n) = (if r = 0 then q else q + 1)"
    using n0 by (simp add: zdiv_zminus1_eq_if q_def r_def)
  show ?thesis
  proof (cases "r = 0")
    case True
    have "a + n - 1 = (n - 1) + q * n" using a True by simp
    then have "(a + n - 1) div n = ((n - 1) + q * n) div n" by (simp only:)
    also have "\<dots> = (n - 1) div n + q" using n0 by simp
    also have "(n - 1) div n = 0" using assms by (simp add: div_pos_pos_trivial)
    finally show ?thesis using c l True by simp
  next
    case False
    have "a + n - 1 = (r - 1) + (q + 1) * n"
      unfolding a by (simp add: algebra_simps)
    then have "(a + n - 1) div n = ((r - 1) + (q + 1) * n) div n" by (simp only:)
    also have "\<dots> = (r - 1) div n + (q + 1)" using n0 by simp
    also have "(r - 1) div n = 0" using m False by (simp add: div_pos_pos_trivial)
    finally show ?thesis using c l False by simp
  qed
qed

lemma ceiling_quotient_pos:
  fixes a n :: int
  assumes "1 \<le> a" "1 \<le> n"
  shows "1 \<le> \<lceil>real_of_int a / real_of_int n\<rceil>"
  using assms by auto

lemma bind_device_cases:
  assumes ppn: "procs_per_node (node_names e) = Some ppn"
    and n: "last_gpu a - first_gpu a + 1 \<noteq> 0"
  defines "ppg \<equiv> \<lceil>real_of_int ppn / real_of_int (last_gpu a - first_gpu a + 1)\<rceil>"
  defines "node_comm \<equiv>
    Comm_split (world a) (assign_split_id (processor_name e) (count_names (node_names e)) 0 0) 0"
  defines "my_gpu \<equiv> comm_rank e node_comm sdiv ppg + first_gpu a"
  assumes g: "ppg \<noteq> 0"
  shows "num_devices e \<le> my_gpu \<Longrightarrow>
      \<exists>s'. bind_device b e a s = Some (- 2, s') \<and> device_init s' \<and> gpu s' = Gpu_unset \<and>
        compiled s' = compiled s \<and> dev_program s' = dev_program s \<and>
        init_count s' = init_count s \<and>
        procs_per_gpu s' = ppg \<and> comm_gpu s' = Comm_split node_comm my_gpu 0 \<and>
        time_device s' = (\<not> 1 < ppg) \<and> calls s' = calls s @ [Gpu_new]"
    and "\<not> num_devices e \<le> my_gpu \<Longrightarrow>
      \<exists>s1. bind_device b e a s = compile_kernels b e s1 \<and> device_init s1 \<and>
        gpu s1 = Gpu_set my_gpu \<and> compiled s1 = compiled s \<and>
        init_count s1 = init_count s \<and>
        threads_per_atom s1 = threads_per_atom s \<and>
        threads_per_charge s1 = threads_per_charge s \<and>
        procs_per_gpu s1 = ppg \<and> comm_gpu s1 = Comm_split node_comm my_gpu 0 \<and>
        time_device s1 = (\<not> 1 < ppg)"
proof -
  show "num_devices e \<le> my_gpu \<Longrightarrow>
      \<exists>s'. bind_device b e a s = Some (- 2, s') \<and> device_init s' \<and> gpu s' = Gpu_unset \<and>
        compiled s' = compiled s \<and> dev_program s' = dev_program s \<and>
        init_count s' = init_count s \<and>
        procs_per_gpu s' = ppg \<and> comm_gpu s' = Comm_split node_comm my_gpu 0 \<and>
        time_device s' = (\<not> 1 < ppg) \<and> calls s' = calls s @ [Gpu_new]"
    using n g unfolding my_gpu_def node_comm_def ppg_def
    by (simp add: bind_device_def ppn Let_def log_call_def)
  show "\<not> num_devices e \<le> my_gpu \<Longrightarrow>
      \<exists>s1. bind_device b e a s = compile_kernels b e s1 \<and> device_init s1 \<and>
        gpu s1 = Gpu_set my_gpu \<and> compiled s1 = compiled s \<and>
        init_count s1 = init_count s \<and>
        threads_per_atom s1 = threads_per_atom s \<and>
        threads_per_charge s1 = threads_per_charge s \<and>
        procs_per_gpu s1 = ppg \<and> comm_gpu s1 = Comm_split node_comm my_gpu 0 \<and>
        time_device s1 = (\<not> 1 < ppg)"
    using n g unfolding my_gpu_def node_comm_def ppg_def
    apply (simp add: bind_device_def ppn Let_def log_call_def)
    apply (rule exI, rule conjI, rule refl)
    apply simp
    done
qed

lemma bind_device_guards:
  assumes "bind_device b e a s = Some x"
  shows "\<exists>ppn. procs_per_node (node_names e) = Some ppn \<and>
    last_gpu a - first_gpu a + 1 \<noteq> 0 \<and>
    \<lceil>real_of_int ppn / real_of_int (last_gpu a - first_gpu a + 1)\<rceil> \<noteq> 0"
proof (cases "procs_per_node (node_names e)")
  case None
  with assms show ?thesis by (simp add: bind_device_def)
next
  case (Some ppn)
  have "last_gpu a - first_gpu a + 1 \<noteq> 0"
    using assms Some by (auto simp: bind_device_def Let_def)
  moreover from this
  have "\<lceil>real_of_int ppn / real_of_int (last_gpu a - first_gpu a + 1)\<rceil> \<noteq> 0"
    using assms Some by (auto simp: bind_device_def Let_def split: if_splits)
  ultimately show ?thesis using Some by simp
qed

lemma compile_kernels_returns:
  assumes "gpu s = Gpu_set d"
    and "1 \<le> gpu_lib_data e 2" and "1 \<le> gpu_lib_data e 3" and "1 \<le> gpu_lib_data e 13"
  shows "\<exists>r s'. compile_kernels b e s = Some (r, s')"
proof (cases "\<not> compiled s \<and> load_string_ok e \<and>
    (use_opencl b \<or> real_of_int (gpu_lib_data e 0) / 100 \<le> arch e d)")
  case True
  with compile_kernels_lanes [of s d e b] assms show ?thesis by blast
next
  case False
  with assms(1) show ?thesis
    by (auto simp: compile_kernels_def Let_def)
qed

text \<open>
  C6. On a manager that is not bound, with at least one gathered name and a device range
  with \<open>last \<ge> first\<close>: \<open>procs_per_node\<close> is at least 1, \<open>procs_per_device\<close> is the ceiling of
  \<open>procs_per_node / (last - first + 1)\<close>, which is the integer quotient rounded up, and the
  device index is \<open>local_rank / procs_per_device + first\<close> with the integer division of C++
  (for a local rank that is not negative, the quotient rounded down). \<^verbatim>\<open>init_device\<close>
  returns whenever the device reports a positive warp size and positive default lanes;
  whenever it returns, the state holds these values: the per-device communicator is the
  split of the node communicator by the device index, the status is -2 exactly when the
  index is not below the number of devices, and otherwise the device of that index is bound.
\<close>

theorem device_assignment:
  assumes "\<not> device_init s" and "node_names e \<noteq> []" and "first_gpu a \<le> last_gpu a"
  shows "\<exists>ppn. procs_per_node (node_names e) = Some ppn \<and> 1 \<le> ppn \<and>
     (let n = last_gpu a - first_gpu a + 1;
          ppg = \<lceil>real_of_int ppn / real_of_int n\<rceil>;
          node_comm = Comm_split (world a)
            (assign_split_id (processor_name e) (count_names (node_names e)) 0 0) 0;
          local_rank = comm_rank e node_comm;
          my_gpu = local_rank sdiv ppg + first_gpu a
      in ppg = (ppn + n - 1) div n \<and> 1 \<le> ppg \<and>
         (0 \<le> local_rank \<longrightarrow> my_gpu = local_rank div ppg + first_gpu a) \<and>
         (1 \<le> gpu_lib_data e 2 \<and> 1 \<le> gpu_lib_data e 3 \<and> 1 \<le> gpu_lib_data e 13 \<longrightarrow>
            (\<exists>r s'. init_device b e a s = Some (r, s'))) \<and>
         (\<forall>r s'. init_device b e a s = Some (r, s') \<longrightarrow>
            procs_per_gpu s' = ppg \<and> comm_gpu s' = Comm_split node_comm my_gpu 0 \<and>
            time_device s' = (ppg = 1) \<and>
            (r = - 2 \<longleftrightarrow> num_devices e \<le> my_gpu) \<and>
            (r \<noteq> - 2 \<longrightarrow> gpu s' = Gpu_set my_gpu)))"
proof -
  from procs_per_node_positive [OF assms(2)] obtain ppn
    where ppn: "procs_per_node (node_names e) = Some ppn" "1 \<le> ppn" by blast
  define n where "n = last_gpu a - first_gpu a + 1"
  define ppg where "ppg = \<lceil>real_of_int ppn / real_of_int n\<rceil>"
  define node_comm where "node_comm = Comm_split (world a)
            (assign_split_id (processor_name e) (count_names (node_names e)) 0 0) 0"
  define local_rank where "local_rank = comm_rank e node_comm"
  define my_gpu where "my_gpu = local_rank sdiv ppg + first_gpu a"
  let ?s = "store_request b a s"
  have n: "1 \<le> n" "n \<noteq> 0" using assms(3) by (simp_all add: n_def)
  have g1: "1 \<le> ppg"
    unfolding ppg_def by (rule ceiling_quotient_pos [OF ppn(2) n(1)])
  then have g: "1 \<le> ppg" "ppg \<noteq> 0" by simp_all
  have q: "ppg = (ppn + n - 1) div n"
    unfolding ppg_def by (rule ceiling_quotient [OF n(1)])
  have d: "0 \<le> local_rank \<longrightarrow> my_gpu = local_rank div ppg + first_gpu a"
    using g by (cases "local_rank = 0") (auto simp: my_gpu_def signed_divide_int_def)
  have i: "init_device b e a s = bind_device b e a ?s"
    using assms(1) by (rule init_device_unbound)
  have n': "last_gpu a - first_gpu a + 1 \<noteq> 0" using n(2) by (simp add: n_def)
  have g': "\<lceil>real_of_int ppn / real_of_int (last_gpu a - first_gpu a + 1)\<rceil> \<noteq> 0"
    using g(2) unfolding ppg_def n_def .
  note cases = bind_device_cases [OF ppn(1) n' g', of b ?s,
      folded n_def, folded ppg_def, folded node_comm_def, folded local_rank_def,
      folded my_gpu_def]
  have t: "(\<not> 1 < ppg) = (ppg = 1)" using g by auto
  have ret: "1 \<le> gpu_lib_data e 2 \<and> 1 \<le> gpu_lib_data e 3 \<and> 1 \<le> gpu_lib_data e 13 \<longrightarrow>
            (\<exists>r s'. init_device b e a s = Some (r, s'))"
  proof (cases "num_devices e \<le> my_gpu")
    case True
    from cases(1) [OF True] show ?thesis unfolding i by blast
  next
    case False
    from cases(2) [OF False] obtain s1 where
      s1: "bind_device b e a ?s = compile_kernels b e s1" "gpu s1 = Gpu_set my_gpu" by blast
    show ?thesis unfolding i s1(1) using compile_kernels_returns [OF s1(2)] by blast
  qed
  have sound: "\<forall>r s'. init_device b e a s = Some (r, s') \<longrightarrow>
            procs_per_gpu s' = ppg \<and> comm_gpu s' = Comm_split node_comm my_gpu 0 \<and>
            time_device s' = (ppg = 1) \<and>
            (r = - 2 \<longleftrightarrow> num_devices e \<le> my_gpu) \<and>
            (r \<noteq> - 2 \<longrightarrow> gpu s' = Gpu_set my_gpu)"
  proof (intro allI impI)
    fix r s'
    assume r: "init_device b e a s = Some (r, s')"
    show "procs_per_gpu s' = ppg \<and> comm_gpu s' = Comm_split node_comm my_gpu 0 \<and>
            time_device s' = (ppg = 1) \<and>
            (r = - 2 \<longleftrightarrow> num_devices e \<le> my_gpu) \<and>
            (r \<noteq> - 2 \<longrightarrow> gpu s' = Gpu_set my_gpu)"
    proof (cases "num_devices e \<le> my_gpu")
      case True
      from cases(1) [OF True] obtain s2 where
        s2: "bind_device b e a ?s = Some (- 2, s2)" "procs_per_gpu s2 = ppg"
          "comm_gpu s2 = Comm_split node_comm my_gpu 0" "time_device s2 = (\<not> 1 < ppg)"
        by blast
      from r have "r = - 2" "s' = s2" unfolding i s2(1) by simp_all
      with s2(2-4) True show ?thesis unfolding t by simp
    next
      case False
      from cases(2) [OF False] obtain s1 where
        s1: "bind_device b e a ?s = compile_kernels b e s1" "gpu s1 = Gpu_set my_gpu"
          "procs_per_gpu s1 = ppg" "comm_gpu s1 = Comm_split node_comm my_gpu 0"
          "time_device s1 = (\<not> 1 < ppg)" by blast
      from r have "compile_kernels b e s1 = Some (r, s')" unfolding i s1(1) .
      from compile_kernels_frame [OF this] have
        "r = 0 \<or> r = - 4" "gpu s' = gpu s1" "procs_per_gpu s' = procs_per_gpu s1"
        "comm_gpu s' = comm_gpu s1" "time_device s' = time_device s1" by simp_all
      with s1(2-5) False show ?thesis
        unfolding t by auto
    qed
  qed
  have body: "ppg = (ppn + n - 1) div n \<and> 1 \<le> ppg \<and>
         (0 \<le> local_rank \<longrightarrow> my_gpu = local_rank div ppg + first_gpu a) \<and>
         (1 \<le> gpu_lib_data e 2 \<and> 1 \<le> gpu_lib_data e 3 \<and> 1 \<le> gpu_lib_data e 13 \<longrightarrow>
            (\<exists>r s'. init_device b e a s = Some (r, s'))) \<and>
         (\<forall>r s'. init_device b e a s = Some (r, s') \<longrightarrow>
            procs_per_gpu s' = ppg \<and> comm_gpu s' = Comm_split node_comm my_gpu 0 \<and>
            time_device s' = (ppg = 1) \<and>
            (r = - 2 \<longleftrightarrow> num_devices e \<le> my_gpu) \<and>
            (r \<noteq> - 2 \<longrightarrow> gpu s' = Gpu_set my_gpu))"
    using q g(1) d ret sound by (intro conjI)
  have body': "let n = last_gpu a - first_gpu a + 1;
          ppg = \<lceil>real_of_int ppn / real_of_int n\<rceil>;
          node_comm = Comm_split (world a)
            (assign_split_id (processor_name e) (count_names (node_names e)) 0 0) 0;
          local_rank = comm_rank e node_comm;
          my_gpu = local_rank sdiv ppg + first_gpu a
      in ppg = (ppn + n - 1) div n \<and> 1 \<le> ppg \<and>
         (0 \<le> local_rank \<longrightarrow> my_gpu = local_rank div ppg + first_gpu a) \<and>
         (1 \<le> gpu_lib_data e 2 \<and> 1 \<le> gpu_lib_data e 3 \<and> 1 \<le> gpu_lib_data e 13 \<longrightarrow>
            (\<exists>r s'. init_device b e a s = Some (r, s'))) \<and>
         (\<forall>r s'. init_device b e a s = Some (r, s') \<longrightarrow>
            procs_per_gpu s' = ppg \<and> comm_gpu s' = Comm_split node_comm my_gpu 0 \<and>
            time_device s' = (ppg = 1) \<and>
            (r = - 2 \<longleftrightarrow> num_devices e \<le> my_gpu) \<and>
            (r \<noteq> - 2 \<longrightarrow> gpu s' = Gpu_set my_gpu))"
    unfolding Let_def
    by (fold n_def, fold ppg_def, fold node_comm_def, fold local_rank_def, fold my_gpu_def)
      (rule body)
  show ?thesis
    by (intro exI [of _ ppn] conjI ppn body')
qed

lemma count_names8:
  "count_names [''n0'', ''n0'', ''n0'', ''n0'', ''n1'', ''n1'', ''n1'', ''n1''] =
     [(''n0'', 4), (''n1'', 4)]"
  by (simp add: count_names_def count_name_def)

text \<open>
  Eight processes, four on each of two hosts, devices 0 and 1, local rank 3: two processes
  per device, device 1, no timing on the device.
\<close>

theorem device_assignment_witness:
  "\<not> device_init (Device build0 memory0) \<and>
   node_names (env0\<lparr>node_names := [''n0'', ''n0'', ''n0'', ''n0'', ''n1'', ''n1'', ''n1'', ''n1''],
       comm_rank := (\<lambda>c. 3), num_devices := 2\<rparr>) \<noteq> [] \<and>
   first_gpu (args0\<lparr>last_gpu := 1\<rparr>) \<le> last_gpu (args0\<lparr>last_gpu := 1\<rparr>) \<and>
   procs_per_node [''n0'', ''n0'', ''n0'', ''n0'', ''n1'', ''n1'', ''n1'', ''n1''] = Some 4 \<and>
   (\<exists>s'. init_device build0
       (env0\<lparr>node_names := [''n0'', ''n0'', ''n0'', ''n0'', ''n1'', ''n1'', ''n1'', ''n1''],
          comm_rank := (\<lambda>c. 3), num_devices := 2\<rparr>)
       (args0\<lparr>last_gpu := 1\<rparr>) (Device build0 memory0) = Some (0, s') \<and>
     procs_per_gpu s' = 2 \<and> gpu s' = Gpu_set 1 \<and> time_device s' = False)"
  using device_assignment [of "Device build0 memory0"
      "env0\<lparr>node_names := [''n0'', ''n0'', ''n0'', ''n0'', ''n1'', ''n1'', ''n1'', ''n1''],
          comm_rank := (\<lambda>c. 3), num_devices := 2\<rparr>"
      "args0\<lparr>last_gpu := 1\<rparr>" build0]
  by (simp add: init_device_def store_request_def bind_device_def compile_kernels_def
      read_capabilities_def clamp_blocks_def clamp_lanes_def procs_per_node_def count_names8
      Device_def build0_def env0_def args0_def memory0_def log_call_def Let_def
      lib_data0_simps size_t_of_int_def int_of_size_t_def signed_divide_int_def
      signed_modulo_int_def)

subsection \<open>Repeated calls of init_device\<close>

lemma init_device_seq_bound:
  "device_init s \<Longrightarrow>
   \<exists>s'. init_device_seq b cs s = Some (replicate (length cs) 0, s') \<and> device_init s' \<and>
     gpu s' = gpu s \<and> compiled s' = compiled s \<and> dev_program s' = dev_program s \<and>
     init_count s' = init_count s"
proof (induction cs arbitrary: s)
  case Nil
  then show ?case by simp
next
  case (Cons c cs)
  obtain e a where c: "c = (e, a)" by (cases c)
  let ?s = "store_request b a s"
  have "device_init ?s" using Cons.prems by (simp add: store_request_fields)
  from Cons.IH [OF this] obtain s' where
    "init_device_seq b cs ?s = Some (replicate (length cs) 0, s')" "device_init s'"
    "gpu s' = gpu ?s" "compiled s' = compiled ?s" "dev_program s' = dev_program ?s"
    "init_count s' = init_count ?s"
    by blast
  then show ?case
    using Cons.prems by (simp add: c init_device_bound store_request_fields)
qed

text \<open>
  A second call whose request equals what the manager holds changes nothing but the record
  of the call to OpenMP.
\<close>

lemma init_device_same_request:
  assumes "device_init s" and "nthreads_arg a = nthreads s"
    and "t_per_atom a = threads_per_atom s" and "t_per_atom a = threads_per_charge s"
  shows "init_device b e a s =
    Some (0, if use_openmp b then log_call (Omp_set_num_threads (nthreads s)) s else s)"
  using assms by (simp add: init_device_bound store_request_def log_call_def)

text \<open>
  C9. If \<^verbatim>\<open>init_device\<close> on an unbound manager fails with -2, the manager is marked as
  bound all the same, its device object has no device, and the compiled flag and the
  program are as before: nothing was compiled. Every sequence of later calls of
  \<^verbatim>\<open>init_device\<close>, with any arguments in any environment, returns 0 each time and leaves
  the manager in that condition.
\<close>

theorem out_of_range_stays_bound:
  assumes "\<not> device_init s" and "init_device b e a s = Some (- 2, s1)"
  shows "device_init s1 \<and> gpu s1 = Gpu_unset \<and> compiled s1 = compiled s \<and>
    dev_program s1 = dev_program s \<and>
    calls s1 = calls (store_request b a s) @ [Gpu_new] \<and>
    (\<exists>s2. init_device_seq b cs s1 = Some (replicate (length cs) 0, s2) \<and>
       device_init s2 \<and> gpu s2 = Gpu_unset \<and> compiled s2 = compiled s \<and>
       dev_program s2 = dev_program s)"
proof -
  let ?s = "store_request b a s"
  have i: "bind_device b e a ?s = Some (- 2, s1)"
    using assms by (simp add: init_device_unbound)
  from bind_device_guards [OF i] obtain ppn where
    g: "procs_per_node (node_names e) = Some ppn" "last_gpu a - first_gpu a + 1 \<noteq> 0"
      "\<lceil>real_of_int ppn / real_of_int (last_gpu a - first_gpu a + 1)\<rceil> \<noteq> 0"
    by blast
  note cases = bind_device_cases [OF g, of b ?s]
  let ?my_gpu = "comm_rank e (Comm_split (world a)
      (assign_split_id (processor_name e) (count_names (node_names e)) 0 0) 0) sdiv
    \<lceil>real_of_int ppn / real_of_int (last_gpu a - first_gpu a + 1)\<rceil> + first_gpu a"
  have out: "num_devices e \<le> ?my_gpu"
  proof (rule ccontr)
    assume "\<not> num_devices e \<le> ?my_gpu"
    from cases(2) [OF this] obtain t where "bind_device b e a ?s = compile_kernels b e t"
      by blast
    with i have "compile_kernels b e t = Some (- 2, s1)" by simp
    from compile_kernels_frame [OF this] show False by simp
  qed
  from cases(1) [OF out] i have s1: "device_init s1" "gpu s1 = Gpu_unset"
    "compiled s1 = compiled ?s" "dev_program s1 = dev_program ?s"
    "calls s1 = calls ?s @ [Gpu_new]"
    by auto
  from init_device_seq_bound [OF s1(1), of b cs] s1(2-4)
  have "\<exists>s2. init_device_seq b cs s1 = Some (replicate (length cs) 0, s2) \<and>
       device_init s2 \<and> gpu s2 = Gpu_unset \<and> compiled s2 = compiled s \<and>
       dev_program s2 = dev_program s"
    by (auto simp: store_request_fields)
  with s1 show ?thesis by (simp add: store_request_fields)
qed

text \<open>
  No device is present; the first call fails with -2 and two later calls, in an environment
  with a device, return 0 without binding or compiling anything.
\<close>

theorem out_of_range_stays_bound_witness:
  "\<not> device_init (Device build0 memory0) \<and>
   (\<exists>s1. init_device build0 (env0\<lparr>num_devices := 0\<rparr>) args0 (Device build0 memory0) =
       Some (- 2, s1) \<and>
     device_init s1 \<and> gpu s1 = Gpu_unset \<and> \<not> compiled s1 \<and>
     (\<exists>s2. init_device_seq build0 [(env0, args0), (env0, args0)] s1 = Some ([0, 0], s2) \<and>
        device_init s2 \<and> gpu s2 = Gpu_unset \<and> \<not> compiled s2))"
proof -
  define s1 where "s1 = (log_call Gpu_new
     ((store_request build0 args0 (Device build0 memory0))
        \<lparr>device_init := True, comm_replica := Comm 1,
          comm_gpu := Comm_split (Comm_split (Comm 0) 0 0) 0 0, particle_split := 1,
          world_size := 1, replica_size := 1, procs_per_gpu := 1, time_device := True,
          gpu := Gpu_unset\<rparr>))"
  have u: "\<not> device_init (Device build0 memory0)" "\<not> compiled (Device build0 memory0)"
    by (simp_all add: Device_def)
  have r: "init_device build0 (env0\<lparr>num_devices := 0\<rparr>) args0 (Device build0 memory0) =
      Some (- 2, s1)"
    by (simp add: init_device_def store_request_def bind_device_def procs_per_node_def
        count_names0 Device_def build0_def env0_def args0_def memory0_def log_call_def
        Let_def signed_divide_int_def s1_def)
  have l: "replicate (length [(env0, args0), (env0, args0)]) (0::int) = [0, 0]" by simp
  from out_of_range_stays_bound [OF u(1) r, of "[(env0, args0), (env0, args0)]"]
  show ?thesis unfolding l using u r by (auto simp del: init_device_seq.simps)
qed

text \<open>
  C2, evaluated. On a new manager \<^verbatim>\<open>init_device\<close> with no lanes requested (0) returns 0
  and resolves 4 lanes per particle and 8 per charge. The second call with the same
  arguments returns 0 and leaves the thread count, the communicator of the device, the
  device and the warp size as they were, but overwrites both resolved lane counts with
  the request 0.
\<close>

theorem second_init_device_resets_lanes:
  "init_device build0 env0 args0 (Device build0 memory0) = Some (0, bound0) \<and>
   threads_per_atom bound0 = 4 \<and> threads_per_charge bound0 = 8 \<and>
   map_option
     (\<lambda>(r, s). (r, threads_per_atom s, threads_per_charge s, nthreads s = nthreads bound0,
        comm_gpu s = comm_gpu bound0, gpu s = gpu bound0, warp_size s = warp_size bound0))
     (init_device build0 env0 args0 bound0) =
   Some (0, 0, 0, True, True, True, True)"
proof -
  have "device_init bound0" by (simp add: bound0_def)
  then have "init_device build0 env0 args0 bound0 = Some (0, store_request build0 args0 bound0)"
    by (rule init_device_bound)
  then have "map_option
     (\<lambda>(r, s). (r, threads_per_atom s, threads_per_charge s, nthreads s = nthreads bound0,
        comm_gpu s = comm_gpu bound0, gpu s = gpu bound0, warp_size s = warp_size bound0))
     (init_device build0 env0 args0 bound0) =
   Some (0, 0, 0, True, True, True, True)"
    by (simp add: store_request_def Let_def log_call_def args0_def bound0_def)
  moreover have "threads_per_atom bound0 = 4" "threads_per_charge bound0 = 8"
    by (simp_all add: bound0_def)
  ultimately show ?thesis
    using init_device_fresh by (intro conjI)
qed

subsection \<open>clear_device\<close>

lemma clear_released:
  assumes "init_count s = 1"
  shows "\<not> allocated (atom (clear s))" "\<not> neighbor_shared (clear s)" "\<not> compiled (clear s)"
    "compiled s \<longrightarrow> \<not> dev_program (clear s) \<and> \<not> k_zero (clear s) \<and> \<not> k_info (clear s)"
  using assms by (simp_all add: clear_def Let_def log_call_def atom_clear_def)

lemma clear_all_fields:
  "init_count (clear_all s) = min (init_count s) 0 \<and>
   device_init (clear_all s) = device_init s \<and> gpu (clear_all s) = gpu s"
proof (induction s rule: clear_all.induct)
  case (1 s)
  show ?case
  proof (cases "0 < init_count s")
    case True
    with 1 show ?thesis
      by (subst (1 2 3) clear_all.simps) (simp add: clear_effect)
  next
    case False
    then show ?thesis by (subst (1 2 3) clear_all.simps) simp
  qed
qed

lemma clear_all_released:
  "0 < init_count s \<Longrightarrow>
   \<not> allocated (atom (clear_all s)) \<and> \<not> neighbor_shared (clear_all s) \<and>
   \<not> compiled (clear_all s)"
proof (induction s rule: clear_all.induct)
  case (1 s)
  show ?case
  proof (cases "init_count s = 1")
    case True
    then have "init_count (clear s) = 0" by (simp add: clear_effect)
    then have "clear_all (clear s) = clear s" by (subst clear_all.simps) simp
    then have "clear_all s = clear s" using True by (subst clear_all.simps) simp
    with clear_released [OF True] show ?thesis by simp
  next
    case False
    with "1.prems" have "0 < init_count (clear s)" by (simp add: clear_effect)
    with "1.IH" "1.prems" show ?thesis by (subst (1 2 3) clear_all.simps) simp
  qed
qed

lemma clear_all_noop: "\<not> 0 < init_count s \<Longrightarrow> clear_all s = s"
  by (subst clear_all.simps) simp

lemma clamp_lanes_defined:
  assumes "warp_size t = warp_size s" and "threads_per_atom t = threads_per_atom s"
    and "threads_per_charge t = threads_per_charge s"
  shows "(clamp_lanes t = None) = (clamp_lanes s = None)"
  using assms by (simp add: clamp_lanes_def Let_def)

text \<open>
  Whether a compilation succeeds depends on the device and the requested lanes only, not on
  the rest of the manager's state.
\<close>

lemma compile_kernels_again:
  assumes ok: "compile_kernels b e s = Some (0, s')" and "\<not> compiled s" and "\<not> compiled t"
    and "gpu t = gpu s" and "threads_per_atom t = threads_per_atom s"
    and "threads_per_charge t = threads_per_charge s"
  shows "\<exists>t'. compile_kernels b e t = Some (0, t')"
proof -
  from ok assms(2) obtain d where d: "gpu s = Gpu_set d"
    by (cases "gpu s") (simp_all add: compile_kernels_def)
  have l: "load_string_ok e"
    using ok assms(2) d by (auto simp: compile_kernels_def Let_def split: if_splits)
  have a: "use_opencl b \<or> real_of_int (gpu_lib_data e 0) / 100 \<le> arch e d"
    using ok assms(2) d l
    by (auto simp: compile_kernels_def Let_def log_call_def split: if_splits)
  let ?pre = "\<lambda>s. clamp_blocks (group_size e d) (read_capabilities (gpu_lib_data e)
          ((log_call Run_kernel_info
             ((log_call Program_load (s\<lparr>dev_program := True\<rparr>))
                \<lparr>k_zero := True, k_info := True, compiled := True\<rparr>))
           \<lparr>ptx_arch := real_of_int (gpu_lib_data e 0) / 100\<rparr>))"
  have "clamp_lanes (?pre s) \<noteq> None"
    using ok unfolding compile_kernels_compiles [OF assms(2) d l a] by auto
  moreover have "(clamp_lanes (?pre t) = None) = (clamp_lanes (?pre s) = None)"
    by (rule clamp_lanes_defined)
      (simp_all add: clamp_blocks_lanes read_capabilities_lanes log_call_def assms(5,6))
  ultimately obtain t' where "clamp_lanes (?pre t) = Some t'" by auto
  then show ?thesis
    using compile_kernels_compiles [OF assms(3) d [folded assms(4)] l a] by simp
qed

lemma init_device_succeeds_as_new:
  assumes new: "init_device b e a (Device b u) = Some (0, t)" and unbound: "\<not> device_init s"
  shows "\<exists>s'. init_device b e a s = Some (0, s') \<and> device_init s' \<and> gpu s' = gpu t"
proof -
  let ?u = "store_request b a (Device b u)"
  let ?s = "store_request b a s"
  have nu: "\<not> device_init (Device b u)" "\<not> compiled (Device b u)"
    by (simp_all add: Device_def)
  have iu: "bind_device b e a ?u = Some (0, t)"
    using new nu(1) by (simp add: init_device_unbound)
  have "init_device b e a s = bind_device b e a ?s"
    using unbound by (rule init_device_unbound)
  note ibs = this
  from bind_device_guards [OF iu] obtain ppn where
    g: "procs_per_node (node_names e) = Some ppn" "last_gpu a - first_gpu a + 1 \<noteq> 0"
      "\<lceil>real_of_int ppn / real_of_int (last_gpu a - first_gpu a + 1)\<rceil> \<noteq> 0"
    by blast
  let ?my_gpu = "comm_rank e (Comm_split (world a)
      (assign_split_id (processor_name e) (count_names (node_names e)) 0 0) 0) sdiv
    \<lceil>real_of_int ppn / real_of_int (last_gpu a - first_gpu a + 1)\<rceil> + first_gpu a"
  have inr: "\<not> num_devices e \<le> ?my_gpu"
  proof
    assume "num_devices e \<le> ?my_gpu"
    from bind_device_cases(1) [OF g this, of b ?u] iu show False by auto
  qed
  from bind_device_cases(2) [OF g inr, of b ?u] obtain u1 where
    u1: "bind_device b e a ?u = compile_kernels b e u1" "gpu u1 = Gpu_set ?my_gpu"
      "compiled u1 = compiled ?u" "threads_per_atom u1 = threads_per_atom ?u"
      "threads_per_charge u1 = threads_per_charge ?u"
    by blast
  from bind_device_cases(2) [OF g inr, of b ?s] obtain s1 where
    s1: "bind_device b e a ?s = compile_kernels b e s1" "gpu s1 = Gpu_set ?my_gpu"
      "device_init s1" "threads_per_atom s1 = threads_per_atom ?s"
      "threads_per_charge s1 = threads_per_charge ?s"
    by blast
  have cu: "compile_kernels b e u1 = Some (0, t)" using iu u1(1) by simp
  have gt: "gpu t = Gpu_set ?my_gpu" using compile_kernels_frame [OF cu] u1(2) by simp
  have "\<exists>s'. compile_kernels b e s1 = Some (0, s')"
  proof (cases "compiled s1")
    case True
    then show ?thesis by (simp add: compile_kernels_def)
  next
    case False
    show ?thesis
      by (rule compile_kernels_again [OF cu _ False])
        (simp_all add: u1 s1 nu store_request_fields)
  qed
  then obtain s' where s': "compile_kernels b e s1 = Some (0, s')" ..
  from compile_kernels_frame [OF s'] s1(2,3) gt
  have "device_init s'" "gpu s' = gpu t" by simp_all
  with s' show ?thesis unfolding ibs s1(1) by blast
qed

text \<open>
  What \<^verbatim>\<open>clear_device\<close> does in every state: the loop ends with the attach count at 0 (a
  count that is not positive is left alone), the device object is deleted if the manager
  was bound, and the manager is unbound afterwards. The atom and neighbour storage and the
  compiled module are released only on the way of \<^verbatim>\<open>clear\<close>, when a client was attached.
  A new manager and a manager already torn down are left as they are, and \<^verbatim>\<open>init_device\<close>
  returns 0 afterwards wherever it does on a new manager.
\<close>

lemma clear_device_effect:
  "\<not> device_init (clear_device s) \<and>
   init_count (clear_device s) = min (init_count s) 0 \<and>
   (device_init s \<longrightarrow> gpu (clear_device s) = No_gpu) \<and>
   (0 < init_count s \<longrightarrow>
      \<not> allocated (atom (clear_device s)) \<and> \<not> neighbor_shared (clear_device s) \<and>
      \<not> compiled (clear_device s)) \<and>
   clear_device (Device b u) = Device b u \<and>
   clear_device (clear_device s) = clear_device s \<and>
   (\<forall>t. init_device b e a (Device b u) = Some (0, t) \<longrightarrow>
      (\<exists>s'. init_device b e a (clear_device s) = Some (0, s') \<and> device_init s' \<and>
         gpu s' = gpu t))"
proof -
  have f: "init_count (clear_device s) = min (init_count s) 0"
    "\<not> device_init (clear_device s)"
    "device_init s \<longrightarrow> gpu (clear_device s) = No_gpu"
    using clear_all_fields [of s] by (simp_all add: clear_device_def Let_def log_call_def)
  have r: "0 < init_count s \<longrightarrow>
      \<not> allocated (atom (clear_device s)) \<and> \<not> neighbor_shared (clear_device s) \<and>
      \<not> compiled (clear_device s)"
    using clear_all_released [of s] by (simp add: clear_device_def Let_def log_call_def)
  have n: "clear_device (Device b u) = Device b u"
    by (simp add: clear_device_def clear_all_noop Device_def)
  have "\<not> 0 < init_count (clear_device s)" using f(1) by simp
  then have i: "clear_device (clear_device s) = clear_device s"
    using f(2) by (simp add: clear_device_def [of "clear_device s"] clear_all_noop)
  have a: "\<forall>t. init_device b e a (Device b u) = Some (0, t) \<longrightarrow>
      (\<exists>s'. init_device b e a (clear_device s) = Some (0, s') \<and> device_init s' \<and>
         gpu s' = gpu t)"
    using init_device_succeeds_as_new [OF _ f(2)] by blast
  from f r n i a show ?thesis by (intro conjI)
qed

subsection \<open>Sequences of attach and detach\<close>



lemma init_succeeds:
  assumes "device_init s" and "precision_unsupported b e s = Some False"
    and "atom_ok out" and "ans_ok out" and "nbor_ok out"
  shows "\<exists>s'. init b e a out s = Some (0, s') \<and> init_count s' = init_count s + 1 \<and>
    device_init s' \<and> gpu s' = gpu s \<and> compiled s' = compiled s \<and>
    dev_program s' = dev_program s \<and>
    length (filter is_atom_init (calls s')) =
      length (filter is_atom_init (calls s)) + (if init_count s = 0 then 1 else 0) \<and>
    count_list (calls s') Program_load = count_list (calls s) Program_load"
  using assms
  by (simp add: init_def attach_def attach_atom_def Let_def log_call_def)









subsection \<open>The teardown of a manager that was never attached\<close>

text \<open>
  C7, evaluated. On the manager bound by \<^verbatim>\<open>init_device\<close> in the concrete installation and
  never attached, \<^verbatim>\<open>clear_device\<close> finds the attach count 0 and never calls \<^verbatim>\<open>clear\<close>: it
  deletes the device object and unbinds the manager, but the manager keeps the compiled
  flag and the program, which the constructor sets to not compiled; after one attach the
  same teardown does reset the flag. The next \<^verbatim>\<open>init_device\<close> with the same arguments
  returns 0, but \<^verbatim>\<open>compile_kernels\<close> returns at once on the flag: nothing is loaded again
  and both lane counts stay at the request 0, where a new manager gets 4 and 8.
\<close>

theorem clear_device_keeps_compiled_flag:
  "init_device build0 env0 args0 (Device build0 memory0) = Some (0, bound0) \<and>
   init_count bound0 = 0 \<and> threads_per_atom bound0 = 4 \<and> threads_per_charge bound0 = 8 \<and>
   \<not> compiled (Device build0 memory0) \<and>
   \<not> device_init (clear_device bound0) \<and> gpu (clear_device bound0) = No_gpu \<and>
   compiled (clear_device bound0) \<and> dev_program (clear_device bound0) \<and>
   map_option (\<lambda>(rs, s). (rs, compiled (clear_device s)))
     (run build0 env0 [Init client0 all_ok] bound0) = Some ([0], False) \<and>
   map_option
     (\<lambda>(r, s). (r, threads_per_atom s, threads_per_charge s,
        count_list (calls s) Program_load))
     (init_device build0 env0 args0 (clear_device bound0)) = Some (0, 0, 0, 1)"
proof -
  have z: "\<not> 0 < init_count bound0" by (simp add: bound0_def memory0_def)
  have n: "clear_all bound0 = bound0" by (rule clear_all_noop [OF z])
  have "device_init bound0" by (simp add: bound0_def)
  then have c: "clear_device bound0 =
      (log_call Gpu_delete (bound0\<lparr>gpu := No_gpu\<rparr>))\<lparr>device_init := False\<rparr>"
    by (simp add: clear_device_def n)
  have b: "init_count bound0 = 0" "threads_per_atom bound0 = 4" "threads_per_charge bound0 = 8"
    "\<not> compiled (Device build0 memory0)"
    by (simp_all add: bound0_def memory0_def Device_def)
  have d: "\<not> device_init (clear_device bound0)" "gpu (clear_device bound0) = No_gpu"
    "compiled (clear_device bound0)" "dev_program (clear_device bound0)"
    unfolding c by (simp_all add: log_call_def bound0_def)
  have a: "map_option (\<lambda>(rs, s). (rs, compiled (clear_device s)))
     (run build0 env0 [Init client0 all_ok] bound0) = Some ([0], False)"
  proof -
    obtain s1 where s1: "init build0 env0 client0 all_ok bound0 = Some (0, s1)"
      "init_count s1 = init_count bound0 + 1"
      using init_succeeds [of bound0 build0 env0 all_ok client0]
      by (auto simp: bound0_def precision_unsupported_def build0_def all_ok_def)
    then have "0 < init_count s1" using b(1) by simp
    from clear_all_released [OF this] have "\<not> compiled (clear_device s1)"
      by (simp add: clear_device_def Let_def log_call_def)
    with s1(1) show ?thesis by simp
  qed
  have i: "map_option
     (\<lambda>(r, s). (r, threads_per_atom s, threads_per_charge s,
        count_list (calls s) Program_load))
     (init_device build0 env0 args0 (clear_device bound0)) = Some (0, 0, 0, 1)"
    unfolding c
    by (simp add: init_device_def store_request_def bind_device_def compile_kernels_def
        procs_per_node_def count_names0 build0_def env0_def args0_def memory0_def
        bound0_def log_call_def Let_def signed_divide_int_def)
  from init_device_fresh b d a i show ?thesis by (intro conjI)
qed

subsection \<open>The overhead estimate\<close>

lemma allreduce_max_Max: "allreduce_max x peers = Max (insert x (set peers))"
  using Max.set_eq_fold [of x peers] by (simp add: allreduce_max_def)

text \<open>A counted loop makes the calls of its passes 0, 1, ... below the bound, in order.\<close>

lemma for_calls_from_upt:
  "0 \<le> i \<Longrightarrow> for_calls_from i n body = concat (map body [nat i..<nat n])"
proof (induction i n body rule: for_calls_from.induct)
  case (1 i n body)
  show ?case
  proof (cases "i < n")
    case True
    then have "[nat i..<nat n] = nat i # [nat (i + 1)..<nat n]"
      using "1.prems" by (simp add: upt_conv_Cons nat_add_distrib)
    moreover have "for_calls_from (i + 1) n body = concat (map body [nat (i + 1)..<nat n])"
      using "1.IH" [OF True] "1.prems" by simp
    ultimately show ?thesis
      using True by (subst for_calls_from.simps) simp
  next
    case False
    then show ?thesis using "1.prems" by (subst for_calls_from.simps) simp
  qed
qed

lemma for_calls_upt: "for_calls n body = concat (map body [0..<nat n])"
  using for_calls_from_upt [of 0 n body] by (simp add: for_calls_def)

lemma trials_fold:
  "0 \<le> i \<Longrightarrow> i \<le> 10 \<Longrightarrow>
   trials b t kernel_calls s i acc = fold (trial b t kernel_calls s) [nat i..<10] acc"
proof (induction b t kernel_calls s i acc rule: trials.induct)
  case (1 b t kernel_calls s i acc)
  show ?case
  proof (cases "i < 10")
    case True
    then have "[nat i..<10] = nat i # [nat (i + 1)..<10]"
      using "1.prems" by (simp add: upt_conv_Cons nat_add_distrib)
    moreover have "trials b t kernel_calls s (i + 1) (trial b t kernel_calls s (nat i) acc) =
        fold (trial b t kernel_calls s) [nat (i + 1)..<10] (trial b t kernel_calls s (nat i) acc)"
      using "1.IH" [OF True] "1.prems" True by simp
    ultimately show ?thesis
      using True by (subst trials.simps) simp
  next
    case False
    with "1.prems" have "i = 10" by simp
    then show ?thesis by (subst trials.simps) simp
  qed
qed

text \<open>The passes over a list of trials, from any values of the two sums and any calls.\<close>

lemma fold_trial:
  "fold (trial b t kernel_calls s) is (g, d, cs) =
     (fold (\<lambda>i g. round_double b
          (g + allreduce_max (over_seconds t i) (peer_seconds t i))) is g,
      fold (\<lambda>i d. round_double b
          (d + allreduce_max (wtime_elapsed t i) (peer_wtime t i))) is d,
      cs @ concat (map (\<lambda>i. snd (snd (trial b t kernel_calls s i (0, 0, [])))) is))"
proof (induction "is" arbitrary: g d cs)
  case Nil
  then show ?case by simp
next
  case (Cons i "is")
  have "trial b t kernel_calls s i (g, d, cs) =
      (round_double b (g + allreduce_max (over_seconds t i) (peer_seconds t i)),
       round_double b (d + allreduce_max (wtime_elapsed t i) (peer_wtime t i)),
       cs @ snd (snd (trial b t kernel_calls s i (0, 0, []))))"
    by (simp add: trial_def Let_def)
  then show ?case by (simp add: Cons.IH)
qed

lemma estimate_gpu_overhead_closed:
  "estimate_gpu_overhead b t kernel_calls s =
     (round_double b
        (fold (\<lambda>i sum. round_double b
           (sum + Max (insert (over_seconds t i) (set (peer_seconds t i))))) [0..<10] 0 / 10),
      round_double b
        (fold (\<lambda>i sum. round_double b
           (sum + Max (insert (wtime_elapsed t i) (set (peer_wtime t i))))) [0..<10] 0 / 10),
      (concat (map (\<lambda>j. [Alloc_in j]) [0..<nat (data_in_estimate s)])
       @ concat (map (\<lambda>j. [Alloc_out j]) [0..<nat (data_out_estimate s)])
       @ concat (map (\<lambda>j. [Alloc_kernel j]) [0..<nat kernel_calls]))
      @ concat (map (\<lambda>i.
          [Gpu_sync, Gpu_barrier, Start Over_timer, Gpu_sync, Gpu_barrier, Wtime]
          @ concat (map (\<lambda>j. [Start (Timer_in j), Copy_in j, Stop (Timer_in j)])
              [0..<nat (data_in_estimate s)])
          @ concat (map (\<lambda>j. [Start (Timer_kernel j), Zero_kernel j, Stop (Timer_kernel j)])
              [0..<nat kernel_calls])
          @ concat (map (\<lambda>j. [Start (Timer_out j), Copy_out j, Stop (Timer_out j)])
              [0..<nat (data_out_estimate s)])
          @ [Stop Over_timer, Wtime]
          @ (if time_device s
             then concat (map (\<lambda>j. [Add_to_total (Timer_in j)])
                    [0..<nat (data_in_estimate s)])
                  @ concat (map (\<lambda>j. [Add_to_total (Timer_kernel j)]) [0..<nat kernel_calls])
                  @ concat (map (\<lambda>j. [Add_to_total (Timer_out j)])
                      [0..<nat (data_out_estimate s)])
             else [])
          @ [Allreduce_max (comm_gpu s) (over_seconds t i),
             Allreduce_max (comm_gpu s) (wtime_elapsed t i)]) [0..<10]))"
proof -
  have c: "\<And>i. snd (snd (trial b t kernel_calls s i (0, 0, []))) =
          [Gpu_sync, Gpu_barrier, Start Over_timer, Gpu_sync, Gpu_barrier, Wtime]
          @ concat (map (\<lambda>j. [Start (Timer_in j), Copy_in j, Stop (Timer_in j)])
              [0..<nat (data_in_estimate s)])
          @ concat (map (\<lambda>j. [Start (Timer_kernel j), Zero_kernel j, Stop (Timer_kernel j)])
              [0..<nat kernel_calls])
          @ concat (map (\<lambda>j. [Start (Timer_out j), Copy_out j, Stop (Timer_out j)])
              [0..<nat (data_out_estimate s)])
          @ [Stop Over_timer, Wtime]
          @ (if time_device s
             then concat (map (\<lambda>j. [Add_to_total (Timer_in j)])
                    [0..<nat (data_in_estimate s)])
                  @ concat (map (\<lambda>j. [Add_to_total (Timer_kernel j)]) [0..<nat kernel_calls])
                  @ concat (map (\<lambda>j. [Add_to_total (Timer_out j)])
                      [0..<nat (data_out_estimate s)])
             else [])
          @ [Allreduce_max (comm_gpu s) (over_seconds t i),
             Allreduce_max (comm_gpu s) (wtime_elapsed t i)]"
    by (simp add: trial_def Let_def timed_region_def for_calls_upt)
  have l: "\<And>acc. trials b t kernel_calls s 0 acc = fold (trial b t kernel_calls s) [0..<10] acc"
    using trials_fold [of 0] by simp
  show ?thesis
    unfolding estimate_gpu_overhead_def Let_def l fold_trial c allreduce_max_Max for_calls_upt
    by simp
qed

text \<open>
  C8. \<^verbatim>\<open>estimate_gpu_overhead\<close> runs exactly ten trials, numbered 0 to 9, after allocating
  its buffers. Each trial synchronises, starts the timer of the whole region, synchronises
  again, reads the host clock, then makes every configured transfer in (number 0 up to the
  count of transfers in), after these every requested launch of the zeroing kernel, after
  these every configured transfer out, each between the start and the stop of its own
  timer, stops the timer of the region and reads the host clock again; the timers are
  added to their totals if the process times the device; the two times of the trial are
  each reduced with a maximum over the per-device communicator. Each of the two results is
  the sum of the ten maxima, added one trial after the other from 0, divided by 10; the
  additions and the division are those of \<^verbatim>\<open>double\<close>, each rounded.
\<close>

theorem estimate_gpu_overhead_trials:
  "estimate_gpu_overhead b t kernel_calls s =
     (round_double b
        (fold (\<lambda>i sum. round_double b
           (sum + Max (insert (over_seconds t i) (set (peer_seconds t i))))) [0..<10] 0 / 10),
      round_double b
        (fold (\<lambda>i sum. round_double b
           (sum + Max (insert (wtime_elapsed t i) (set (peer_wtime t i))))) [0..<10] 0 / 10),
      (concat (map (\<lambda>j. [Alloc_in j]) [0..<nat (data_in_estimate s)])
       @ concat (map (\<lambda>j. [Alloc_out j]) [0..<nat (data_out_estimate s)])
       @ concat (map (\<lambda>j. [Alloc_kernel j]) [0..<nat kernel_calls]))
      @ concat (map (\<lambda>i.
          [Gpu_sync, Gpu_barrier, Start Over_timer, Gpu_sync, Gpu_barrier, Wtime]
          @ concat (map (\<lambda>j. [Start (Timer_in j), Copy_in j, Stop (Timer_in j)])
              [0..<nat (data_in_estimate s)])
          @ concat (map (\<lambda>j. [Start (Timer_kernel j), Zero_kernel j, Stop (Timer_kernel j)])
              [0..<nat kernel_calls])
          @ concat (map (\<lambda>j. [Start (Timer_out j), Copy_out j, Stop (Timer_out j)])
              [0..<nat (data_out_estimate s)])
          @ [Stop Over_timer, Wtime]
          @ (if time_device s
             then concat (map (\<lambda>j. [Add_to_total (Timer_in j)])
                    [0..<nat (data_in_estimate s)])
                  @ concat (map (\<lambda>j. [Add_to_total (Timer_kernel j)]) [0..<nat kernel_calls])
                  @ concat (map (\<lambda>j. [Add_to_total (Timer_out j)])
                      [0..<nat (data_out_estimate s)])
             else [])
          @ [Allreduce_max (comm_gpu s) (over_seconds t i),
             Allreduce_max (comm_gpu s) (wtime_elapsed t i)]) [0..<10]))"
  by (rule estimate_gpu_overhead_closed)

text \<open>With arithmetic that does not round, the results are the means of the ten maxima.\<close>

lemma fold_add_sum_list: "fold (\<lambda>i sum. sum + f i) is (x::real) = x + (\<Sum>i\<leftarrow>is. f i)"
  by (induction "is" arbitrary: x) (simp_all add: add.assoc)

lemma estimate_gpu_overhead_exact:
  assumes "round_double b = (\<lambda>x. x)"
  shows "fst (estimate_gpu_overhead b t kernel_calls s) =
      (\<Sum>i\<leftarrow>[0..<10]. Max (insert (over_seconds t i) (set (peer_seconds t i)))) / 10"
    and "fst (snd (estimate_gpu_overhead b t kernel_calls s)) =
      (\<Sum>i\<leftarrow>[0..<10]. Max (insert (wtime_elapsed t i) (set (peer_wtime t i)))) / 10"
  unfolding estimate_gpu_overhead_closed assms fst_conv snd_conv fold_add_sum_list
  by simp_all

text \<open>
  In all, ten times the configured transfers in, ten times the requested launches and ten
  times the configured transfers out are made.
\<close>

lemma length_filter_concat_const:
  assumes "\<And>x. x \<in> set xs \<Longrightarrow> length (filter P (f x)) = n"
  shows "length (filter P (concat (map f xs))) = length xs * n"
  using assms by (induction xs) simp_all

lemma estimate_gpu_overhead_counts:
  "length (filter (\<lambda>c. \<exists>j. c = Copy_in j) (snd (snd (estimate_gpu_overhead b t k s)))) =
     10 * nat (data_in_estimate s)"
  "length (filter (\<lambda>c. \<exists>j. c = Zero_kernel j) (snd (snd (estimate_gpu_overhead b t k s)))) =
     10 * nat k"
  "length (filter (\<lambda>c. \<exists>j. c = Copy_out j) (snd (snd (estimate_gpu_overhead b t k s)))) =
     10 * nat (data_out_estimate s)"
  unfolding estimate_gpu_overhead_closed snd_conv
  by (simp_all add: length_filter_concat_const [where n = 0]
      length_filter_concat_const [where n = 1]
      length_filter_concat_const [where n = "nat (data_in_estimate s)"]
      length_filter_concat_const [where n = "nat k"]
      length_filter_concat_const [where n = "nat (data_out_estimate s)"])

end
